theory Spec2Isabelle
  imports Main "HOL-Library.Word"
begin

section \<open>Keepalive and dead-peer-detection scheduler (mainloop.c)\<close>

subsection \<open>Data model\<close>

text \<open>
  Modelled from the spec: \<^verbatim>\<open>struct keepalive_info\<close> and the \<^verbatim>\<open>KA_*\<close> action codes are
  declared in \<^verbatim>\<open>openconnect-internal.h\<close>, which is not among the sources. The record has
  the fields that \<^verbatim>\<open>mainloop.c\<close> reads and writes, under the names used there: the three
  intervals \<open>rekey\<close>, \<open>dpd\<close>, \<open>keepalive\<close> (zero means that the feature is disabled) and the
  four time stamps \<open>last_rekey\<close>, \<open>last_tx\<close>, \<open>last_rx\<close>, \<open>last_dpd\<close>.

  The intervals are C \<^verbatim>\<open>int\<close>s and the time stamps are \<^verbatim>\<open>time_t\<close>; a field holds the
  value as an \<^typ>\<open>int\<close>. Arithmetic in \<^verbatim>\<open>time_t\<close> (the additions, the differences and
  their multiplication by 1000) is modelled on \<^typ>\<open>int\<close>: the width of \<^verbatim>\<open>time_t\<close> is not
  fixed by the sources, and with 64 bits these operations do not overflow on time stamps
  and 32-bit intervals of any size met in practice. The one operation made in C
  \<^verbatim>\<open>int\<close> is the product \<^verbatim>\<open>2 * ka->dpd\<close>; it is modelled on 32 bits, see \<open>c_int_mul\<close>.
  The caller's time-out is a C \<^verbatim>\<open>int\<close>, modelled as a 32-bit word that is read as a signed
  number.
\<close>

record keepalive_info =
  dpd :: int
  keepalive :: int
  rekey :: int
  last_rekey :: int
  last_tx :: int
  last_rx :: int
  last_dpd :: int

datatype ka_action = KA_NONE | KA_DPD | KA_DPD_DEAD | KA_KEEPALIVE | KA_REKEY

type_synonym c_int = "32 word"

text \<open>C division truncates towards zero (\<^verbatim>\<open>ka->dpd / 2\<close>).\<close>

definition c_div :: "int \<Rightarrow> int \<Rightarrow> int" where
  "c_div a b = (if (a < 0) = (b < 0) then \<bar>a\<bar> div \<bar>b\<bar> else - (\<bar>a\<bar> div \<bar>b\<bar>))"

text \<open>
  The product of two C \<^verbatim>\<open>int\<close>s, formed in \<^verbatim>\<open>int\<close>. When the mathematical product does
  not fit into 32 bits the result wraps around, which is what the compiled code yields
  (C itself leaves the overflow undefined).
\<close>

definition c_int_mul :: "int \<Rightarrow> int \<Rightarrow> int" where
  "c_int_mul a b = sint (word_of_int (a * b) :: c_int)"

text \<open>
  \<^verbatim>\<open>if (*timeout > ms) *timeout = ms;\<close> where \<open>ms\<close> has type \<^verbatim>\<open>time_t\<close>: the comparison
  is made on the signed value of the time-out, the store narrows \<open>ms\<close> to 32 bits.
\<close>

definition tighten :: "c_int \<Rightarrow> int \<Rightarrow> c_int" where
  "tighten timeout ms = (if sint timeout > ms then word_of_int ms else timeout)"

subsection \<open>The degraded-mode check\<close>

text \<open>
  \<^verbatim>\<open>ka->last_rx + (2 * ka->dpd)\<close>, the time after which the peer is taken for dead: the
  variable \<^verbatim>\<open>due\<close> of line 163 and \<^verbatim>\<open>overdue\<close> of line 192.
\<close>

definition dpd_overdue :: "keepalive_info \<Rightarrow> int" where
  "dpd_overdue ka = last_rx ka + c_int_mul 2 (dpd ka)"

text \<open>
  \<^verbatim>\<open>ka_stalled_action(ka, &timeout)\<close>, with the value of \<^verbatim>\<open>time(NULL)\<close> as the argument
  \<open>now\<close>. It does not write to \<open>ka\<close>; the result is the action and the new time-out.
\<close>

definition ka_stalled_action :: "keepalive_info \<Rightarrow> int \<Rightarrow> c_int \<Rightarrow> ka_action \<times> c_int" where
  "ka_stalled_action ka now timeout =
     (if rekey ka \<noteq> 0 \<and> now \<ge> last_rekey ka + rekey ka then (KA_REKEY, timeout)
      else
        let timeout1 = (if rekey ka \<noteq> 0
                        then tighten timeout ((last_rekey ka + rekey ka - now) * 1000)
                        else timeout)
        in
          if dpd ka = 0 then (KA_NONE, timeout1)
          else
            let due = dpd_overdue ka in
            if now > due then (KA_DPD_DEAD, timeout1)
            else (KA_NONE, tighten timeout1 ((due - now) * 1000)))"

subsection \<open>The normal per-cycle check\<close>

text \<open>
  The three stages of \<^verbatim>\<open>keepalive_action\<close>, last stage first. Each takes the time-out as
  the stages before it left it and yields the action, the state (only \<open>last_dpd\<close> is ever
  written) and the time-out.
\<close>

definition ka_keepalive_stage ::
  "keepalive_info \<Rightarrow> int \<Rightarrow> c_int \<Rightarrow> ka_action \<times> keepalive_info \<times> c_int" where
  "ka_keepalive_stage ka now timeout =
     (if keepalive ka \<noteq> 0 then
        let due = last_tx ka + keepalive ka in
        if now \<ge> due then (KA_KEEPALIVE, ka, timeout)
        else (KA_NONE, ka, tighten timeout ((due - now) * 1000))
      else (KA_NONE, ka, timeout))"

text \<open>
  The probe deadline: \<open>last_rx + dpd\<close>, moved to \<open>last_dpd + dpd / 2\<close> when a probe is
  outstanding (\<^verbatim>\<open>if (ka->last_dpd > ka->last_rx) due = ka->last_dpd + ka->dpd / 2;\<close>).
\<close>

definition dpd_due :: "keepalive_info \<Rightarrow> int" where
  "dpd_due ka = (if last_dpd ka > last_rx ka then last_dpd ka + c_div (dpd ka) 2
                 else last_rx ka + dpd ka)"

definition ka_dpd_stage ::
  "keepalive_info \<Rightarrow> int \<Rightarrow> c_int \<Rightarrow> ka_action \<times> keepalive_info \<times> c_int" where
  "ka_dpd_stage ka now timeout =
     (if dpd ka \<noteq> 0 then
        let due = dpd_due ka;
            overdue = dpd_overdue ka
        in
          if now > overdue then (KA_DPD_DEAD, ka, timeout)
          else if now \<ge> due then (KA_DPD, ka\<lparr>last_dpd := now\<rparr>, timeout)
          else ka_keepalive_stage ka now (tighten timeout ((due - now) * 1000))
      else ka_keepalive_stage ka now timeout)"

definition keepalive_action ::
  "keepalive_info \<Rightarrow> int \<Rightarrow> c_int \<Rightarrow> ka_action \<times> keepalive_info \<times> c_int" where
  "keepalive_action ka now timeout =
     (if rekey ka \<noteq> 0 then
        let due = last_rekey ka + rekey ka in
        if now \<ge> due then (KA_REKEY, ka, timeout)
        else ka_dpd_stage ka now (tighten timeout ((due - now) * 1000))
      else ka_dpd_stage ka now timeout)"

subsection \<open>Conditions and runs of checks\<close>

text \<open>The two conditions tested by \<^verbatim>\<open>keepalive_action\<close>, named for the statements below.\<close>

definition rekey_due :: "keepalive_info \<Rightarrow> int \<Rightarrow> bool" where
  "rekey_due ka now \<longleftrightarrow> rekey ka \<noteq> 0 \<and> now \<ge> last_rekey ka + rekey ka"

definition dpd_probe_due :: "keepalive_info \<Rightarrow> int \<Rightarrow> bool" where
  "dpd_probe_due ka now \<longleftrightarrow>
     dpd ka \<noteq> 0 \<and> \<not> now > dpd_overdue ka \<and> now \<ge> dpd_due ka"

text \<open>
  A run of normal checks on one keepalive state. Each step gives the value that
  \<open>last_rx\<close> has when the check is made (the transport drivers store the time of the
  latest receive there between checks), the time of the check and the caller's time-out;
  the state written by one check is the state read by the next.
\<close>

fun ka_checks :: "keepalive_info \<Rightarrow> (int \<times> int \<times> c_int) list \<Rightarrow> ka_action list" where
  "ka_checks ka [] = []"
| "ka_checks ka ((rx, now, timeout) # steps) =
     (case keepalive_action (ka\<lparr>last_rx := rx\<rparr>) now timeout of
        (act, ka', timeout') \<Rightarrow> act # ka_checks ka' steps)"

text \<open>\<^verbatim>\<open>INT_MAX\<close> of \<^verbatim>\<open>limits.h\<close> for a 32-bit \<^verbatim>\<open>int\<close>.\<close>

definition INT_MAX :: c_int where
  "INT_MAX = 2147483647"

subsection \<open>Example states\<close>

definition ka_ex_rekey_dead :: keepalive_info where
  "ka_ex_rekey_dead = \<lparr>dpd = 10, keepalive = 0, rekey = 10, last_rekey = 0, last_tx = 0,
     last_rx = 0, last_dpd = 0\<rparr>"

definition ka_ex_dpd :: keepalive_info where
  "ka_ex_dpd = \<lparr>dpd = 10, keepalive = 0, rekey = 0, last_rekey = 0, last_tx = 0,
     last_rx = 0, last_dpd = 0\<rparr>"

definition ka_ex_idle :: keepalive_info where
  "ka_ex_idle = \<lparr>dpd = 0, keepalive = 0, rekey = 0, last_rekey = 0, last_tx = 0,
     last_rx = 0, last_dpd = 0\<rparr>"

definition ka_ex_negative :: keepalive_info where
  "ka_ex_negative = \<lparr>dpd = - 5, keepalive = 0, rekey = 0, last_rekey = 0, last_tx = 0,
     last_rx = 10, last_dpd = 0\<rparr>"

definition ka_ex_wrap_up :: keepalive_info where
  "ka_ex_wrap_up = \<lparr>dpd = - 1073741825, keepalive = 0, rekey = 0, last_rekey = 0,
     last_tx = 0, last_rx = 0, last_dpd = 0\<rparr>"

definition ka_ex_wrap_down :: keepalive_info where
  "ka_ex_wrap_down = \<lparr>dpd = 1073741824, keepalive = 0, rekey = 0, last_rekey = 0,
     last_tx = 0, last_rx = 0, last_dpd = 0\<rparr>"

definition ka_ex_dpd1 :: keepalive_info where
  "ka_ex_dpd1 = \<lparr>dpd = 1, keepalive = 0, rekey = 0, last_rekey = 0, last_tx = 0,
     last_rx = 0, last_dpd = 0\<rparr>"

definition ka_ex_dpd3 :: keepalive_info where
  "ka_ex_dpd3 = \<lparr>dpd = 3, keepalive = 0, rekey = 0, last_rekey = 0, last_tx = 0,
     last_rx = 0, last_dpd = 0\<rparr>"

definition ka_ex_busy :: keepalive_info where
  "ka_ex_busy = \<lparr>dpd = 30, keepalive = 20, rekey = 3600, last_rekey = 0, last_tx = 95,
     last_rx = 95, last_dpd = 0\<rparr>"


section \<open>Packet queue (mainloop.c)\<close>

subsection \<open>Packets in memory\<close>

text \<open>
  Modelled from the spec: \<^verbatim>\<open>struct pkt\<close> is declared in \<^verbatim>\<open>openconnect-internal.h\<close>, which
  is not among the sources. A packet has a byte length, a buffer of data and a link to the
  next packet of its queue; \<^verbatim>\<open>mainloop.c\<close> uses them as \<^verbatim>\<open>len\<close>, \<^verbatim>\<open>data\<close> and \<^verbatim>\<open>next\<close>
  (here \<open>nxt\<close>). A non-null \<^verbatim>\<open>struct pkt *\<close> is an address, \<^verbatim>\<open>NULL\<close> is \<open>None\<close>, and the
  memory holding packets is a partial map from addresses to packets.
\<close>

type_synonym addr = nat

type_synonym byte = "8 word"

record pkt =
  len :: int
  data :: "byte list"
  nxt :: "addr option"

type_synonym heap = "addr \<rightharpoonup> pkt"

text \<open>
  The memory that the queue functions touch: the pointer variable that is the head of the
  queue and the packets. The argument \<^verbatim>\<open>struct pkt **q\<close> points either to that variable
  or to the \<^verbatim>\<open>next\<close> field of a packet.
\<close>

record qstate =
  head :: "addr option"
  pkts :: heap

datatype cursor = Head | Next addr

text \<open>
  Reading \<^verbatim>\<open>*q\<close> and writing \<^verbatim>\<open>*q = v\<close>. Access through the \<^verbatim>\<open>next\<close> field of an address
  that holds no packet has no defined behaviour: the result is \<open>None\<close>.
\<close>

fun load :: "qstate \<Rightarrow> cursor \<Rightarrow> addr option option" where
  "load s Head = Some (head s)"
| "load s (Next a) = map_option nxt (pkts s a)"

fun store :: "qstate \<Rightarrow> cursor \<Rightarrow> addr option \<Rightarrow> qstate option" where
  "store s Head v = Some (s\<lparr>head := v\<rparr>)"
| "store s (Next a) v =
     (case pkts s a of None \<Rightarrow> None
      | Some p \<Rightarrow> Some (s\<lparr>pkts := (pkts s)(a \<mapsto> p\<lparr>nxt := v\<rparr>)\<rparr>))"

subsection \<open>\<^verbatim>\<open>queue_packet\<close> and \<^verbatim>\<open>queue_new_packet\<close>\<close>

text \<open>
  The loop \<^verbatim>\<open>while (*q) q = &(*q)->next;\<close>. On a queue whose links form a cycle the loop
  does not end, and the function has no value.
\<close>

partial_function (option) queue_end :: "qstate \<Rightarrow> cursor \<Rightarrow> cursor option" where
  "queue_end s q =
     (case load s q of
        None \<Rightarrow> None
      | Some None \<Rightarrow> Some q
      | Some (Some a) \<Rightarrow> queue_end s (Next a))"

declare queue_end.simps [code]

text \<open>
  \<^verbatim>\<open>queue_packet(q, new)\<close>: walk to the end, then \<^verbatim>\<open>new->next = NULL; *q = new;\<close>.
\<close>

definition queue_packet :: "qstate \<Rightarrow> addr \<Rightarrow> qstate option" where
  "queue_packet s new =
     (case queue_end s Head of
        None \<Rightarrow> None
      | Some q \<Rightarrow>
          (case pkts s new of
             None \<Rightarrow> None
           | Some p \<Rightarrow> store (s\<lparr>pkts := (pkts s)(new \<mapsto> p\<lparr>nxt := None\<rparr>)\<rparr>) q (Some new)))"

text \<open>\<^verbatim>\<open>ENOMEM\<close> of \<^verbatim>\<open>errno.h\<close> (the value on Linux).\<close>

definition ENOMEM :: int where
  "ENOMEM = 12"

text \<open>
  \<^verbatim>\<open>queue_new_packet(q, buf, len)\<close>. The argument \<open>m\<close> is what \<^verbatim>\<open>malloc\<close> returns: \<open>None\<close>
  when it fails, the address of the new block otherwise. \<open>buf\<close> is the content of the
  object that the caller's pointer refers to; \<^verbatim>\<open>memcpy\<close> of a negative length or of more
  bytes than the object has is undefined.
\<close>

definition queue_new_packet ::
  "qstate \<Rightarrow> addr option \<Rightarrow> byte list \<Rightarrow> int \<Rightarrow> (int \<times> qstate) option" where
  "queue_new_packet s m buf n =
     (case m of
        None \<Rightarrow> Some (- ENOMEM, s)
      | Some new \<Rightarrow>
          if n < 0 \<or> int (length buf) < n then None
          else
            (case queue_packet
                    (s\<lparr>pkts := (pkts s)(new \<mapsto> \<lparr>len = n, data = take (nat n) buf, nxt = None\<rparr>)\<rparr>)
                    new of
               None \<Rightarrow> None
             | Some s' \<Rightarrow> Some (0, s')))"

subsection \<open>Traversal and runs of queue operations\<close>

text \<open>
  \<open>queue_holds h p xs\<close>: following the links from \<open>p\<close> visits exactly the packets \<open>xs\<close>,
  each given by its address, its length and its bytes, in this order, and then reaches
  \<^verbatim>\<open>NULL\<close>.
\<close>

primrec queue_holds :: "heap \<Rightarrow> addr option \<Rightarrow> (addr \<times> int \<times> byte list) list \<Rightarrow> bool" where
  "queue_holds h p [] \<longleftrightarrow> p = None"
| "queue_holds h p (x # xs) \<longleftrightarrow>
     (case p of
        None \<Rightarrow> False
      | Some a \<Rightarrow>
          (case h a of
             None \<Rightarrow> False
           | Some pk \<Rightarrow> x = (a, len pk, data pk) \<and> queue_holds h (nxt pk) xs))"

text \<open>The pointer at which the walk of \<open>queue_packet\<close> stops, on a queue holding \<open>xs\<close>.\<close>

definition end_cursor :: "cursor \<Rightarrow> (addr \<times> int \<times> byte list) list \<Rightarrow> cursor" where
  "end_cursor q xs = (if xs = [] then q else Next (fst (last xs)))"





section \<open>Session loop (mainloop.c)\<close>

subsection \<open>State, collaborators and events\<close>

text \<open>C remainder, \<^verbatim>\<open>timeout % 1000\<close>.\<close>

definition c_mod :: "int \<Rightarrow> int \<Rightarrow> int" where
  "c_mod a b = a - b * c_div a b"

text \<open>\<^verbatim>\<open>EIO\<close> and \<^verbatim>\<open>EINTR\<close> of \<^verbatim>\<open>errno.h\<close> (the values on Linux).\<close>

definition EIO :: int where
  "EIO = 5"

definition EINTR :: int where
  "EINTR = 4"

text \<open>
  Modelled from the spec: \<^verbatim>\<open>struct openconnect_info\<close> is declared in
  \<^verbatim>\<open>openconnect-internal.h\<close>, which is not among the sources. The record has the fields
  that \<^verbatim>\<open>openconnect_mainloop\<close> reads and writes. The two SSL pointers are modelled by
  whether they are non-null; \<open>world\<close> stands for all the rest (sockets, queues, the state
  of the transports, the clock).
\<close>

record 'w openconnect_info =
  quit_reason :: "string option"
  got_cancel_cmd :: int
  got_pause_cmd :: int
  cmd_fd :: int
  ssl_fd :: int
  select_nfds :: int
  select_rfds :: "int set"
  select_wfds :: "int set"
  select_efds :: "int set"
  new_dtls_ssl :: bool
  dtls_ssl :: bool
  dtls_attempt_period :: int
  new_dtls_started :: int
  reconnect_timeout :: int
  reconnect_interval :: int
  world :: 'w

text \<open>
  The calls that the loop makes, in the order in which it makes them. The calls of the
  three per-cycle drivers are recorded with the value they return, a call of
  \<^verbatim>\<open>poll_cmd_fd\<close> with the values of \<^verbatim>\<open>got_cancel_cmd\<close> and \<^verbatim>\<open>got_pause_cmd\<close> that it
  leaves, \<^verbatim>\<open>select\<close> with the two fields of its time-out and \<^verbatim>\<open>cstp_bye\<close> with the reason
  it is given.
\<close>

datatype event =
    Ev_dtls_try_handshake
  | Ev_connect_dtls_socket
  | Ev_dtls_mainloop int
  | Ev_cstp_mainloop int
  | Ev_tun_mainloop int
  | Ev_poll_cmd_fd int int
  | Ev_openconnect_close_https
  | Ev_dtls_close
  | Ev_select int int
  | Ev_cstp_bye "string option"
  | Ev_shutdown_tun
  | Ev_vpn_progress string

text \<open>
  The functions that \<^verbatim>\<open>openconnect_mainloop\<close> calls are defined in other files. They are
  parameters of the model: each takes the session state and returns the new one, with its
  return value where the loop uses it. \<open>HAVE_DTLS\<close> is the build option of the same name,
  \<open>time_now\<close> is \<^verbatim>\<open>time(NULL)\<close>, \<open>select_call\<close> is \<^verbatim>\<open>select\<close> with the two fields of its
  time-out.
\<close>

record 'w drivers =
  HAVE_DTLS :: bool
  time_now :: "'w openconnect_info \<Rightarrow> int"
  dtls_try_handshake :: "'w openconnect_info \<Rightarrow> 'w openconnect_info"
  connect_dtls_socket :: "'w openconnect_info \<Rightarrow> 'w openconnect_info"
  dtls_mainloop :: "'w openconnect_info \<Rightarrow> c_int \<Rightarrow> int \<times> 'w openconnect_info \<times> c_int"
  cstp_mainloop :: "'w openconnect_info \<Rightarrow> c_int \<Rightarrow> int \<times> 'w openconnect_info \<times> c_int"
  tun_mainloop :: "'w openconnect_info \<Rightarrow> c_int \<Rightarrow> int \<times> 'w openconnect_info \<times> c_int"
  poll_cmd_fd :: "'w openconnect_info \<Rightarrow> int \<Rightarrow> 'w openconnect_info"
  openconnect_close_https :: "'w openconnect_info \<Rightarrow> int \<Rightarrow> 'w openconnect_info"
  dtls_close :: "'w openconnect_info \<Rightarrow> int \<Rightarrow> 'w openconnect_info"
  select_call :: "'w openconnect_info \<Rightarrow> int \<Rightarrow> int \<Rightarrow> 'w openconnect_info"
  cstp_bye :: "'w openconnect_info \<Rightarrow> string option \<Rightarrow> 'w openconnect_info"
  shutdown_tun :: "'w openconnect_info \<Rightarrow> 'w openconnect_info"

subsection \<open>One iteration\<close>

text \<open>The condition of the second \<^verbatim>\<open>if\<close> of the DTLS part (source lines 80 to 82).\<close>

definition dtls_attempt_warranted :: "'w drivers \<Rightarrow> 'w openconnect_info \<Rightarrow> bool" where
  "dtls_attempt_warranted d v \<longleftrightarrow>
     dtls_attempt_period v \<noteq> 0 \<and> \<not> dtls_ssl v \<and> \<not> new_dtls_ssl v \<and>
     new_dtls_started v + dtls_attempt_period v < time_now d v \<and> ssl_fd v \<noteq> - 1"

text \<open>
  The part of the body under \<^verbatim>\<open>#ifdef HAVE_DTLS\<close>. Its result is the new values of
  \<^verbatim>\<open>ret\<close> and \<^verbatim>\<open>did_work\<close>, the state, the time-out and the calls made.
\<close>

definition dtls_part ::
  "'w drivers \<Rightarrow> int \<Rightarrow> 'w openconnect_info \<Rightarrow> c_int \<Rightarrow>
     int \<times> int \<times> 'w openconnect_info \<times> c_int \<times> event list" where
  "dtls_part d ret v timeout =
     (if \<not> HAVE_DTLS d then (ret, 0, v, timeout, [])
      else
        let (v1, ev1) = (if new_dtls_ssl v
                         then (dtls_try_handshake d v, [Ev_dtls_try_handshake])
                         else (v, []));
            (v2, ev2) = (if dtls_attempt_warranted d v1
                         then (connect_dtls_socket d v1,
                               ev1 @ [Ev_vpn_progress ''Attempt new DTLS connection'',
                                      Ev_connect_dtls_socket])
                         else (v1, ev1))
        in
          if dtls_ssl v2 then
            (case dtls_mainloop d v2 timeout of
               (r, v3, timeout3) \<Rightarrow> (r, 0 + r, v3, timeout3, ev2 @ [Ev_dtls_mainloop r]))
          else (ret, 0, v2, timeout, ev2))"

text \<open>
  How the body ends: it reaches the end of the loop body (or \<^verbatim>\<open>continue\<close>), it leaves the
  loop by \<^verbatim>\<open>break\<close>, or it returns from the function. The first two carry the value of
  \<^verbatim>\<open>ret\<close>, the last one the value returned.
\<close>

datatype 'w outcome =
    Continue int "'w openconnect_info"
  | Break int "'w openconnect_info"
  | Return int "'w openconnect_info"

definition mainloop_body ::
  "'w drivers \<Rightarrow> int \<Rightarrow> 'w openconnect_info \<Rightarrow> 'w outcome \<times> event list" where
  "mainloop_body d ret v =
     (case dtls_part d ret v INT_MAX of
        (ret1, did_work1, v1, timeout1, ev1) \<Rightarrow>
          if quit_reason v1 \<noteq> None then (Break ret1 v1, ev1)
          else
            (case cstp_mainloop d v1 timeout1 of
               (ret2, v2, timeout2) \<Rightarrow>
                 if quit_reason v2 \<noteq> None then (Break ret2 v2, ev1 @ [Ev_cstp_mainloop ret2])
                 else
                   (case tun_mainloop d v2 timeout2 of
                      (r3, v3, timeout3) \<Rightarrow>
                        let did_work = did_work1 + ret2 + r3;
                            ev3 = ev1 @ [Ev_cstp_mainloop ret2, Ev_tun_mainloop r3]
                        in
                          if quit_reason v3 \<noteq> None then (Break ret2 v3, ev3)
                          else
                            let v4 = poll_cmd_fd d v3 0;
                                ev4 = ev3 @ [Ev_poll_cmd_fd (got_cancel_cmd v4)
                                               (got_pause_cmd v4)]
                            in
                              if got_cancel_cmd v4 \<noteq> 0 then
                                (Break (- EINTR) (v4\<lparr>quit_reason := Some ''Aborted by caller''\<rparr>),
                                 ev4)
                              else if got_pause_cmd v4 \<noteq> 0 then
                                (Return 0
                                   ((dtls_close d (openconnect_close_https d v4 0) 1)
                                      \<lparr>new_dtls_started := 0, got_pause_cmd := 0\<rparr>),
                                 ev4 @ [Ev_openconnect_close_https, Ev_dtls_close,
                                        Ev_vpn_progress ''Caller paused the connection''])
                              else if did_work \<noteq> 0 then (Continue ret2 v4, ev4)
                              else
                                let tv_sec = c_div (sint timeout3) 1000;
                                    tv_usec = c_mod (sint timeout3) 1000 * 1000
                                in
                                  (Continue ret2 (select_call d v4 tv_sec tv_usec),
                                   ev4 @ [Ev_vpn_progress ''No work to do; sleeping for %d ms...'',
                                          Ev_select tv_sec tv_usec]))))"

subsection \<open>The loop and the function\<close>

text \<open>
  \<^verbatim>\<open>while (!vpninfo->quit_reason) { ... }\<close>. The loop need not end; it has a value only
  if it does.
\<close>

datatype 'w loop_end =
    Loop_exit int "'w openconnect_info"
  | Loop_return int "'w openconnect_info"

partial_function (option) mainloop_while ::
  "'w drivers \<Rightarrow> int \<Rightarrow> 'w openconnect_info \<Rightarrow> event list \<Rightarrow> ('w loop_end \<times> event list) option"
  where
  "mainloop_while d ret v tr =
     (if quit_reason v \<noteq> None then Some (Loop_exit ret v, tr)
      else
        (case mainloop_body d ret v of
           (Continue ret' v', ev) \<Rightarrow> mainloop_while d ret' v' (tr @ ev)
         | (Break ret' v', ev) \<Rightarrow> Some (Loop_exit ret' v', tr @ ev)
         | (Return r v', ev) \<Rightarrow> Some (Loop_return r v', tr @ ev)))"

declare mainloop_while.simps [code]

datatype path = PAUSED | STOPPED

definition mainloop_init :: "'w openconnect_info \<Rightarrow> int \<Rightarrow> int \<Rightarrow> 'w openconnect_info" where
  "mainloop_init vpninfo reconnect_timeout' reconnect_interval' =
     (let v1 = vpninfo\<lparr>reconnect_timeout := reconnect_timeout',
                       reconnect_interval := reconnect_interval'\<rparr>
      in
        if cmd_fd v1 \<noteq> - 1
        then v1\<lparr>select_rfds := insert (cmd_fd v1) (select_rfds v1),
                select_nfds := (if cmd_fd v1 \<ge> select_nfds v1 then cmd_fd v1 + 1
                                else select_nfds v1)\<rparr>
        else v1)"

definition openconnect_mainloop ::
  "'w drivers \<Rightarrow> 'w openconnect_info \<Rightarrow> int \<Rightarrow> int \<Rightarrow>
     (path \<times> int \<times> 'w openconnect_info \<times> event list) option" where
  "openconnect_mainloop d vpninfo reconnect_timeout' reconnect_interval' =
     (case mainloop_while d 0 (mainloop_init vpninfo reconnect_timeout' reconnect_interval') [] of
        None \<Rightarrow> None
      | Some (Loop_return r v', tr) \<Rightarrow> Some (PAUSED, r, v', tr)
      | Some (Loop_exit ret v', tr) \<Rightarrow>
          Some (STOPPED, (if ret < 0 then ret else - EIO),
                shutdown_tun d (cstp_bye d v' (quit_reason v')),
                tr @ [Ev_cstp_bye (quit_reason v'), Ev_shutdown_tun]))"

subsection \<open>Reading the events\<close>

text \<open>
  The value of \<^verbatim>\<open>ret\<close> after the calls \<open>tr\<close>, when no cancel command was seen: the value
  returned by the latest call of \<^verbatim>\<open>dtls_mainloop\<close> or \<^verbatim>\<open>cstp_mainloop\<close>, and \<open>0\<close> before
  the first one.
\<close>

definition last_ret :: "event list \<Rightarrow> int" where
  "last_ret tr =
     foldl (\<lambda>r e. case e of Ev_dtls_mainloop x \<Rightarrow> x | Ev_cstp_mainloop x \<Rightarrow> x | _ \<Rightarrow> r) 0 tr"

text \<open>
  What the calls of \<^verbatim>\<open>poll_cmd_fd\<close> in a list of events found: a cancel command, or a
  pause command without a cancel command (the loop tests for the cancel command first).
\<close>

fun cancel_poll :: "event \<Rightarrow> bool" where
  "cancel_poll (Ev_poll_cmd_fd c p) \<longleftrightarrow> c \<noteq> 0"
| "cancel_poll _ \<longleftrightarrow> False"

fun pause_poll :: "event \<Rightarrow> bool" where
  "pause_poll (Ev_poll_cmd_fd c p) \<longleftrightarrow> c = 0 \<and> p \<noteq> 0"
| "pause_poll _ \<longleftrightarrow> False"

definition cancel_seen :: "event list \<Rightarrow> bool" where
  "cancel_seen tr = list_ex cancel_poll tr"

definition pause_seen :: "event list \<Rightarrow> bool" where
  "pause_seen tr = list_ex pause_poll tr"

text \<open>What holds when the loop is left, by \<^verbatim>\<open>break\<close> or its condition, or by \<^verbatim>\<open>return\<close>.\<close>

fun loop_end_ok :: "'w loop_end \<times> event list \<Rightarrow> bool" where
  "loop_end_ok (Loop_exit ret v, tr) \<longleftrightarrow>
     quit_reason v \<noteq> None \<and> \<not> pause_seen tr \<and>
     (if cancel_seen tr
      then ret = - EINTR \<and> quit_reason v = Some ''Aborted by caller'' \<and>
           tr \<noteq> [] \<and> cancel_poll (last tr)
      else ret = last_ret tr)"
| "loop_end_ok (Loop_return r v, tr) \<longleftrightarrow>
     r = 0 \<and> got_pause_cmd v = 0 \<and> new_dtls_started v = 0 \<and> \<not> cancel_seen tr \<and>
     (\<exists>tr0 pz. pz \<noteq> 0 \<and> \<not> pause_seen tr0 \<and>
        tr = tr0 @ [Ev_poll_cmd_fd 0 pz, Ev_openconnect_close_https, Ev_dtls_close,
                    Ev_vpn_progress ''Caller paused the connection''])"

text \<open>\<open>precedes a b xs\<close>: some occurrence of \<open>a\<close> in \<open>xs\<close> comes before one of \<open>b\<close>.\<close>

fun precedes :: "'a \<Rightarrow> 'a \<Rightarrow> 'a list \<Rightarrow> bool" where
  "precedes a b [] \<longleftrightarrow> False"
| "precedes a b (x # xs) \<longleftrightarrow> (x = a \<and> b \<in> set xs) \<or> precedes a b xs"

definition handshake_events :: "'w drivers \<Rightarrow> 'w openconnect_info \<Rightarrow> event list" where
  "handshake_events d v =
     (if HAVE_DTLS d \<and> new_dtls_ssl v then [Ev_dtls_try_handshake] else []) @
     (if HAVE_DTLS d \<and>
         dtls_attempt_warranted d (if new_dtls_ssl v then dtls_try_handshake d v else v)
      then [Ev_connect_dtls_socket] else [])"

definition is_handshake_event :: "event \<Rightarrow> bool" where
  "is_handshake_event e \<longleftrightarrow> e = Ev_dtls_try_handshake \<or> e = Ev_connect_dtls_socket"

subsection \<open>Example collaborators\<close>

definition v_ex :: "unit openconnect_info" where
  "v_ex = \<lparr>quit_reason = None, got_cancel_cmd = 0, got_pause_cmd = 0, cmd_fd = 4, ssl_fd = 3,
     select_nfds = 0, select_rfds = {}, select_wfds = {}, select_efds = {},
     new_dtls_ssl = True, dtls_ssl = False, dtls_attempt_period = 10, new_dtls_started = 0,
     reconnect_timeout = 0, reconnect_interval = 0, world = ()\<rparr>"

definition d_ex :: "unit drivers" where
  "d_ex = \<lparr>HAVE_DTLS = True,
     time_now = (\<lambda>v. 100),
     dtls_try_handshake = (\<lambda>v. v\<lparr>new_dtls_ssl := False\<rparr>),
     connect_dtls_socket = (\<lambda>v. v\<lparr>new_dtls_ssl := True, new_dtls_started := 100\<rparr>),
     dtls_mainloop = (\<lambda>v t. (0, v, t)),
     cstp_mainloop = (\<lambda>v t. (1, v, t)),
     tun_mainloop = (\<lambda>v t. (0, v, t)),
     poll_cmd_fd = (\<lambda>v n. v\<lparr>got_pause_cmd := 1\<rparr>),
     openconnect_close_https = (\<lambda>v n. v\<lparr>ssl_fd := - 1\<rparr>),
     dtls_close = (\<lambda>v n. v\<lparr>dtls_ssl := False, new_dtls_ssl := False\<rparr>),
     select_call = (\<lambda>v s u. v),
     cstp_bye = (\<lambda>v r. v),
     shutdown_tun = (\<lambda>v. v)\<rparr>"

definition d_ex_stop :: "unit drivers" where
  "d_ex_stop = d_ex\<lparr>cstp_mainloop := (\<lambda>v t. (- 32, v\<lparr>quit_reason := Some ''Remote closed''\<rparr>, t))\<rparr>"

definition d_ex_tun :: "unit drivers" where
  "d_ex_tun = d_ex\<lparr>cstp_mainloop := (\<lambda>v t. (0, v, t)),
     tun_mainloop := (\<lambda>v t. (- 12, v\<lparr>quit_reason := Some ''Tun failed''\<rparr>, t))\<rparr>"

definition d_ex_cancel :: "unit drivers" where
  "d_ex_cancel = d_ex\<lparr>poll_cmd_fd := (\<lambda>v n. v\<lparr>got_cancel_cmd := 1\<rparr>)\<rparr>"

definition d_ex_run :: "unit drivers" where
  "d_ex_run = d_ex\<lparr>poll_cmd_fd := (\<lambda>v n. v)\<rparr>"

subsection \<open>Example queues\<close>



definition q_ex :: qstate where
  "q_ex = \<lparr>head = Some 3, pkts = [3 \<mapsto> \<lparr>len = 1, data = [42], nxt = None\<rparr>]\<rparr>"


section \<open>Properties of the scheduler\<close>

subsection \<open>Arithmetic of the time-out\<close>

lemma sint_word_of_int_small:
  assumes "0 \<le> ms" "ms < 2147483648"
  shows "sint (word_of_int ms :: 32 word) = ms"
proof -
  have "(ms + 2147483648) mod 4294967296 = ms + 2147483648"
    using assms by simp
  then show ?thesis by (simp add: int_word_sint)
qed

lemma sint_tighten:
  "0 \<le> ms \<Longrightarrow> sint (tighten t ms) = min (sint t) ms"
proof (cases "sint t > ms")
  case True
  assume "0 \<le> ms"
  have "sint t < 2 ^ (LENGTH(32) - 1)" by (rule sint_lt)
  with True have "ms < 2147483648" by simp
  with \<open>0 \<le> ms\<close> have "sint (word_of_int ms :: 32 word) = ms"
    by (rule sint_word_of_int_small)
  with True show ?thesis by (simp add: tighten_def)
next
  case False
  then show ?thesis by (simp add: tighten_def)
qed

lemma tighten_bounds:
  "0 \<le> ms \<Longrightarrow>
     sint (tighten t ms) \<le> sint t \<and> (0 \<le> sint t \<longrightarrow> 0 \<le> sint (tighten t ms))"
  by (simp add: sint_tighten)

lemma c_div_2: "c_div a 2 = (if 0 \<le> a then a div 2 else - ((- a) div 2))"
  by (simp add: c_div_def)

subsection \<open>The product in \<open>int\<close>\<close>

lemma c_int_mul_mod:
  "c_int_mul a b = (a * b + 2147483648) mod 4294967296 - 2147483648"
  unfolding c_int_mul_def int_word_sint by simp

lemma c_int_mul_exact:
  "- 2147483648 \<le> a * b \<Longrightarrow> a * b < 2147483648 \<Longrightarrow> c_int_mul a b = a * b"
  by (simp add: c_int_mul_mod)

lemma c_int_mul_range:
  "- 2147483648 \<le> c_int_mul a b \<and> c_int_mul a b < 2147483648"
proof -
  have "0 \<le> (a * b + 2147483648) mod 4294967296"
    and "(a * b + 2147483648) mod 4294967296 < 4294967296"
    by simp_all
  then show ?thesis by (simp add: c_int_mul_mod)
qed

lemma c_int_mul_2_le:
  assumes "- 1073741824 \<le> x"
  shows "c_int_mul 2 x \<le> 2 * x"
proof (cases "x < 1073741824")
  case True
  with assms show ?thesis by (simp add: c_int_mul_exact)
next
  case False
  with c_int_mul_range [of 2 x] show ?thesis by simp
qed

lemma c_int_mul_2_ge:
  assumes "x < 1073741824"
  shows "2 * x \<le> c_int_mul 2 x"
proof (cases "- 1073741824 \<le> x")
  case True
  with assms show ?thesis by (simp add: c_int_mul_exact)
next
  case False
  with c_int_mul_range [of 2 x] show ?thesis by simp
qed

lemma dpd_overdue_exact:
  "- 1073741824 \<le> dpd ka \<Longrightarrow> dpd ka < 1073741824 \<Longrightarrow>
     dpd_overdue ka = last_rx ka + 2 * dpd ka"
  by (simp add: dpd_overdue_def c_int_mul_exact)

subsection \<open>Each stage only tightens the time-out\<close>

lemma ka_keepalive_stage_timeout:
  assumes "ka_keepalive_stage ka now t = (a, ka', t')"
  shows "sint t' \<le> sint t \<and> (0 \<le> sint t \<longrightarrow> 0 \<le> sint t')"
  using assms
  by (auto simp: ka_keepalive_stage_def Let_def sint_tighten split: if_splits)

lemma ka_dpd_stage_timeout:
  assumes "ka_dpd_stage ka now t = (a, ka', t')"
  shows "sint t' \<le> sint t \<and> (0 \<le> sint t \<longrightarrow> 0 \<le> sint t')"
proof (cases "dpd ka \<noteq> 0 \<and> now \<le> dpd_overdue ka \<and> now < dpd_due ka")
  case True
  then have ms: "0 \<le> (dpd_due ka - now) * 1000" by simp
  from True assms have "ka_keepalive_stage ka now (tighten t ((dpd_due ka - now) * 1000)) = (a, ka', t')"
    by (simp add: ka_dpd_stage_def Let_def)
  from ka_keepalive_stage_timeout [OF this] tighten_bounds [OF ms, of t]
  show ?thesis by linarith
next
  case False
  then show ?thesis using assms ka_keepalive_stage_timeout [of ka now t a ka' t']
    by (auto simp: ka_dpd_stage_def Let_def split: if_splits)
qed

lemma keepalive_action_timeout:
  assumes "keepalive_action ka now t = (a, ka', t')"
  shows "sint t' \<le> sint t \<and> (0 \<le> sint t \<longrightarrow> 0 \<le> sint t')"
proof (cases "rekey ka \<noteq> 0 \<and> now < last_rekey ka + rekey ka")
  case True
  then have ms: "0 \<le> (last_rekey ka + rekey ka - now) * 1000" by simp
  from True assms have "ka_dpd_stage ka now (tighten t ((last_rekey ka + rekey ka - now) * 1000)) = (a, ka', t')"
    by (simp add: keepalive_action_def Let_def)
  from ka_dpd_stage_timeout [OF this] tighten_bounds [OF ms, of t]
  show ?thesis by linarith
next
  case False
  then show ?thesis using assms ka_dpd_stage_timeout [of ka now t a ka' t']
    by (auto simp: keepalive_action_def Let_def split: if_splits)
qed

lemma ka_stalled_action_timeout:
  assumes "ka_stalled_action ka now t = (a, t')"
  shows "sint t' \<le> sint t \<and> (0 \<le> sint t \<longrightarrow> 0 \<le> sint t')"
proof -
  define t1 where "t1 = (if rekey ka \<noteq> 0 \<and> now < last_rekey ka + rekey ka
                         then tighten t ((last_rekey ka + rekey ka - now) * 1000) else t)"
  have b1: "sint t1 \<le> sint t \<and> (0 \<le> sint t \<longrightarrow> 0 \<le> sint t1)"
    by (simp add: t1_def sint_tighten)
  have "t' = t1 \<or> (now \<le> dpd_overdue ka \<and> t' = tighten t1 ((dpd_overdue ka - now) * 1000))"
    using assms by (auto simp: ka_stalled_action_def Let_def t1_def split: if_splits)
  then show ?thesis
  proof
    assume "t' = t1" with b1 show ?thesis by simp
  next
    assume h: "now \<le> dpd_overdue ka \<and> t' = tighten t1 ((dpd_overdue ka - now) * 1000)"
    then have "0 \<le> (dpd_overdue ka - now) * 1000" by simp
    from tighten_bounds [OF this, of t1] h b1 show ?thesis by auto
  qed
qed

subsection \<open>Which action is returned\<close>

lemma ka_keepalive_stage_action:
  "fst (ka_keepalive_stage ka now t) \<in> {KA_KEEPALIVE, KA_NONE}"
  by (simp add: ka_keepalive_stage_def Let_def)

lemma ka_keepalive_stage_state:
  "fst (snd (ka_keepalive_stage ka now t)) = ka"
  by (simp add: ka_keepalive_stage_def Let_def)

lemma ka_dpd_stage_dead:
  "fst (ka_dpd_stage ka now t) = KA_DPD_DEAD \<longleftrightarrow> dpd ka \<noteq> 0 \<and> now > dpd_overdue ka"
  using ka_keepalive_stage_action [of ka now t]
    ka_keepalive_stage_action [of ka now "tighten t ((dpd_due ka - now) * 1000)"]
  by (auto simp: ka_dpd_stage_def Let_def)

lemma ka_dpd_stage_probe:
  "fst (ka_dpd_stage ka now t) = KA_DPD \<longleftrightarrow> dpd_probe_due ka now"
  using ka_keepalive_stage_action [of ka now t]
    ka_keepalive_stage_action [of ka now "tighten t ((dpd_due ka - now) * 1000)"]
  by (auto simp: ka_dpd_stage_def dpd_probe_due_def Let_def)

lemma keepalive_action_dead:
  "fst (keepalive_action ka now t) = KA_DPD_DEAD \<longleftrightarrow>
     \<not> rekey_due ka now \<and> dpd ka \<noteq> 0 \<and> now > dpd_overdue ka"
  by (simp add: keepalive_action_def rekey_due_def Let_def ka_dpd_stage_dead)

lemma keepalive_action_probe:
  "fst (keepalive_action ka now t) = KA_DPD \<longleftrightarrow> \<not> rekey_due ka now \<and> dpd_probe_due ka now"
  by (simp add: keepalive_action_def rekey_due_def Let_def ka_dpd_stage_probe)

lemma ka_dpd_stage_not_rekey:
  "fst (ka_dpd_stage ka now t) \<noteq> KA_REKEY"
  using ka_keepalive_stage_action [of ka now t]
    ka_keepalive_stage_action [of ka now "tighten t ((dpd_due ka - now) * 1000)"]
  by (auto simp: ka_dpd_stage_def Let_def)

lemma keepalive_action_rekey:
  "fst (keepalive_action ka now t) = KA_REKEY \<longleftrightarrow> rekey_due ka now"
  by (simp add: keepalive_action_def rekey_due_def Let_def ka_dpd_stage_not_rekey)

lemma ka_dpd_stage_state:
  "fst (snd (ka_dpd_stage ka now t)) =
     (if fst (ka_dpd_stage ka now t) = KA_DPD then ka\<lparr>last_dpd := now\<rparr> else ka)"
  using ka_keepalive_stage_action [of ka now t]
    ka_keepalive_stage_action [of ka now "tighten t ((dpd_due ka - now) * 1000)"]
  by (auto simp: ka_dpd_stage_def Let_def ka_keepalive_stage_state)

lemma keepalive_action_state:
  "fst (snd (keepalive_action ka now t)) =
     (if fst (keepalive_action ka now t) = KA_DPD then ka\<lparr>last_dpd := now\<rparr> else ka)"
  by (simp add: keepalive_action_def Let_def ka_dpd_stage_state)

lemma probe_after_last_rx:
  assumes "dpd_probe_due ka now" and "- 1073741824 \<le> dpd ka"
  shows "0 < dpd ka \<and> last_rx ka < now \<and> last_dpd ka \<le> now"
proof -
  from assms(2) have "dpd_overdue ka \<le> last_rx ka + 2 * dpd ka"
    by (simp add: dpd_overdue_def c_int_mul_2_le)
  with assms(1) show ?thesis
    by (auto simp: dpd_probe_due_def dpd_due_def c_div_2 split: if_splits)
qed

lemma keepalive_action_dpd_field:
  "dpd (fst (snd (keepalive_action ka now t))) = dpd ka"
  by (simp add: keepalive_action_state)

subsection \<open>Two checks in a row\<close>

text \<open>
  What the code guarantees about repeated probes, for an interval of at least \<open>- 2 ^ 30\<close>:
  between two probes with no receive in between lie at least \<open>dpd / 2\<close> seconds, where
  the division is the truncating one of C; a check changes the state only by storing
  \<open>now\<close> in \<open>last_dpd\<close>, which it does exactly when it returns \<open>KA_DPD\<close>; and \<open>last_dpd\<close> does
  not move backwards.
\<close>

lemma probe_gap_truncated:
  assumes first: "keepalive_action ka t1 timeout1 = (a1, ka1, timeout1')"
    and same: "last_rx kb = last_rx ka1" "last_dpd kb = last_dpd ka1" "dpd kb = dpd ka1"
    and second: "keepalive_action kb t2 timeout2 = (a2, ka2, timeout2')"
    and range: "- 1073741824 \<le> dpd ka"
  shows "(a1 = KA_DPD \<and> a2 = KA_DPD \<longrightarrow> t2 - t1 \<ge> c_div (dpd ka) 2)
    \<and> (if a1 = KA_DPD then ka1 = ka\<lparr>last_dpd := t1\<rparr> else ka1 = ka)
    \<and> last_dpd ka \<le> last_dpd ka1"
proof -
  have st: "ka1 = (if a1 = KA_DPD then ka\<lparr>last_dpd := t1\<rparr> else ka)"
    using keepalive_action_state [of ka t1 timeout1] by (simp add: first)
  have adv: "last_dpd ka \<le> last_dpd ka1"
  proof (cases "a1 = KA_DPD")
    case True
    then have "dpd_probe_due ka t1"
      using keepalive_action_probe [of ka t1 timeout1] by (simp add: first)
    from probe_after_last_rx [OF this range] st True show ?thesis by simp
  next
    case False
    with st show ?thesis by simp
  qed
  have gap: "t2 - t1 \<ge> c_div (dpd ka) 2" if both: "a1 = KA_DPD" "a2 = KA_DPD"
  proof -
    from both(1) have p1: "dpd_probe_due ka t1"
      using keepalive_action_probe [of ka t1 timeout1] by (simp add: first)
    from both(2) have p2: "dpd_probe_due kb t2"
      using keepalive_action_probe [of kb t2 timeout2] by (simp add: second)
    from st both(1) have ka1: "ka1 = ka\<lparr>last_dpd := t1\<rparr>" by simp
    from probe_after_last_rx [OF p1 range] have "last_rx ka < t1" by simp
    with same ka1 have "dpd_due kb = t1 + c_div (dpd ka) 2"
      by (simp add: dpd_due_def)
    with p2 show ?thesis by (simp add: dpd_probe_due_def)
  qed
  from gap st adv show ?thesis by simp
qed

subsection \<open>Evaluation\<close>

lemmas ka_eval = keepalive_action_def ka_dpd_stage_def ka_keepalive_stage_def
  ka_stalled_action_def dpd_due_def dpd_overdue_def c_int_mul_mod c_div_def tighten_def

section \<open>Properties of the packet queue\<close>

subsection \<open>Queues in memory\<close>

lemma queue_holds_None [simp]: "queue_holds h None xs \<longleftrightarrow> xs = []"
  by (cases xs) simp_all

lemma queue_holds_Some:
  "queue_holds h (Some a) xs \<longleftrightarrow>
     (\<exists>pk ys. h a = Some pk \<and> xs = (a, len pk, data pk) # ys \<and> queue_holds h (nxt pk) ys)"
  by (cases xs) (auto split: option.splits)

lemma queue_holds_unique:
  "queue_holds h p xs \<Longrightarrow> queue_holds h p ys \<Longrightarrow> xs = ys"
proof (induction xs arbitrary: p ys)
  case Nil
  then show ?case by simp
next
  case (Cons x xs)
  then show ?case
    by (cases ys) (auto split: option.splits)
qed

lemma queue_holds_suffix:
  "queue_holds h p (xs @ ys) \<Longrightarrow> \<exists>q. queue_holds h q ys"
proof (induction xs arbitrary: p)
  case Nil
  then show ?case by auto
next
  case (Cons x xs)
  from Cons.prems obtain q where "queue_holds h q (xs @ ys)"
    by (auto split: option.splits)
  then show ?case by (rule Cons.IH)
qed

lemma queue_holds_head_not_in_tail:
  assumes "h a = Some pk" and "queue_holds h (nxt pk) xs"
  shows "a \<notin> fst ` set xs"
proof
  assume "a \<in> fst ` set xs"
  then obtain l d where "(a, l, d) \<in> set xs" by auto
  then obtain ys zs where xs: "xs = ys @ (a, l, d) # zs"
    by (auto simp: in_set_conv_decomp)
  from assms(2) obtain q where "queue_holds h q ((a, l, d) # zs)"
    unfolding xs using queue_holds_suffix by blast
  with assms(1) have "queue_holds h (nxt pk) zs"
    by (auto split: option.splits)
  with assms(2) have "xs = zs" by (rule queue_holds_unique)
  with xs show False by simp
qed

lemma queue_holds_update_other:
  "a \<notin> fst ` set xs \<Longrightarrow> queue_holds (h(a \<mapsto> v)) p xs \<longleftrightarrow> queue_holds h p xs"
  by (induction xs arbitrary: p) (auto split: option.splits)

lemma queue_end_holds:
  "queue_holds (pkts s) p xs \<Longrightarrow> load s q = Some p \<Longrightarrow> queue_end s q = Some (end_cursor q xs)"
proof (induction xs arbitrary: p q)
  case Nil
  then show ?case by (simp add: queue_end.simps end_cursor_def)
next
  case (Cons x xs)
  from Cons.prems(1) obtain a pk where p: "p = Some a" and a: "pkts s a = Some pk"
    and x: "x = (a, len pk, data pk)" and rest: "queue_holds (pkts s) (nxt pk) xs"
    by (auto split: option.splits)
  from a have "load s (Next a) = Some (nxt pk)" by simp
  with rest have "queue_end s (Next a) = Some (end_cursor (Next a) xs)"
    by (rule Cons.IH)
  moreover have "queue_end s q = queue_end s (Next a)"
    using Cons.prems(2) p by (subst queue_end.simps) simp
  ultimately show ?case by (simp add: end_cursor_def x)
qed

lemma queue_holds_link_last:
  assumes "queue_holds h p xs" and "xs \<noteq> []" and "new \<notin> fst ` set xs"
    and "h new = Some pn" and "nxt pn = None" and "h (fst (last xs)) = Some pl"
  shows "queue_holds (h(fst (last xs) \<mapsto> pl\<lparr>nxt := Some new\<rparr>)) p
           (xs @ [(new, len pn, data pn)])"
  using assms
proof (induction xs arbitrary: p)
  case Nil
  then show ?case by simp
next
  case (Cons x xs)
  from Cons.prems(1) obtain a pk where p: "p = Some a" and a: "h a = Some pk"
    and x: "x = (a, len pk, data pk)" and rest: "queue_holds h (nxt pk) xs"
    by (auto split: option.splits)
  from Cons.prems(3) x have new: "new \<noteq> a" "new \<notin> fst ` set xs" by auto
  show ?case
  proof (cases "xs = []")
    case True
    with rest have "nxt pk = None" by simp
    moreover from True Cons.prems(6) x a have "pl = pk" by simp
    ultimately show ?thesis
      using True p x new Cons.prems(4,5) by simp
  next
    case False
    define b where "b = fst (last xs)"
    define h' where "h' = h(b \<mapsto> pl\<lparr>nxt := Some new\<rparr>)"
    from a rest have "a \<notin> fst ` set xs" by (rule queue_holds_head_not_in_tail)
    with False have ne: "b \<noteq> a"
      using last_in_set [of xs] by (auto simp: b_def)
    from False Cons.prems(6) have "h (fst (last xs)) = Some pl" by simp
    with rest False new Cons.prems(4,5)
    have "queue_holds (h(fst (last xs) \<mapsto> pl\<lparr>nxt := Some new\<rparr>)) (nxt pk)
            (xs @ [(new, len pn, data pn)])"
      by (intro Cons.IH) auto
    then have tl: "queue_holds h' (nxt pk) (xs @ [(new, len pn, data pn)])"
      by (simp only: h'_def b_def)
    from ne a have "h' a = Some pk" by (simp add: h'_def)
    with tl have "queue_holds h' p ((x # xs) @ [(new, len pn, data pn)])"
      by (simp add: p x)
    moreover from False have "fst (last (x # xs)) = b" by (simp add: b_def)
    ultimately show ?thesis by (simp only: h'_def)
  qed
qed

lemma queue_holds_last_allocated:
  "queue_holds h p xs \<Longrightarrow> xs \<noteq> [] \<Longrightarrow> \<exists>pl. h (fst (last xs)) = Some pl"
  by (induction xs arbitrary: p) (auto split: option.splits)

lemma queue_holds_allocated:
  "queue_holds h p xs \<Longrightarrow> fst ` set xs \<subseteq> dom h"
  by (induction xs arbitrary: p) (auto split: option.splits)

lemma queue_packet_appends:
  assumes q: "queue_holds (pkts s) (head s) xs"
    and new: "new \<notin> fst ` set xs" and pn: "pkts s new = Some pn"
  shows "\<exists>s'. queue_packet s new = Some s'
           \<and> queue_holds (pkts s') (head s') (xs @ [(new, len pn, data pn)])
           \<and> (\<forall>b. b \<noteq> new \<and> (xs = [] \<or> b \<noteq> fst (last xs)) \<longrightarrow> pkts s' b = pkts s b)
           \<and> dom (pkts s') = dom (pkts s)
           \<and> head s' = (if xs = [] then Some new else head s)"
proof -
  let ?h1 = "(pkts s)(new \<mapsto> pn\<lparr>nxt := None\<rparr>)"
  from q have walk: "queue_end s Head = Some (end_cursor Head xs)"
    by (rule queue_end_holds) simp
  from q new have q1: "queue_holds ?h1 (head s) xs"
    by (simp add: queue_holds_update_other)
  from pn have d1: "dom ?h1 = dom (pkts s)" by auto
  show ?thesis
  proof (cases "xs = []")
    case True
    with q have "head s = None" by simp
    with True walk pn d1 show ?thesis
      by (simp add: queue_packet_def end_cursor_def)
  next
    case False
    define a where "a = fst (last xs)"
    from q1 False obtain pl where pl: "?h1 a = Some pl"
      unfolding a_def using queue_holds_last_allocated by blast
    from False new have ne: "a \<noteq> new"
      using last_in_set [of xs] by (auto simp: a_def)
    define h2 where "h2 = ?h1(a \<mapsto> pl\<lparr>nxt := Some new\<rparr>)"
    have "queue_holds (?h1(fst (last xs) \<mapsto> pl\<lparr>nxt := Some new\<rparr>)) (head s)
            (xs @ [(new, len (pn\<lparr>nxt := None\<rparr>), data (pn\<lparr>nxt := None\<rparr>))])"
      using q1 False new _ _ pl [unfolded a_def] by (rule queue_holds_link_last) simp_all
    then have holds: "queue_holds h2 (head s) (xs @ [(new, len pn, data pn)])"
      by (simp add: h2_def a_def)
    have frame: "\<forall>b. b \<noteq> new \<and> b \<noteq> a \<longrightarrow> h2 b = pkts s b"
      by (simp add: h2_def)
    from pl d1 have dom: "dom h2 = dom (pkts s)"
      by (auto simp: h2_def)
    have "queue_packet s new = Some (s\<lparr>pkts := h2\<rparr>)"
      using False walk pn pl by (simp add: queue_packet_def end_cursor_def h2_def a_def)
    with holds frame dom False show ?thesis
      by (simp add: a_def)
  qed
qed

lemma queue_new_packet_appends:
  assumes q: "queue_holds (pkts s) (head s) xs"
    and new: "new \<notin> dom (pkts s)" and n: "0 \<le> n" "n \<le> int (length buf)"
  shows "\<exists>s'. queue_new_packet s (Some new) buf n = Some (0, s')
           \<and> queue_holds (pkts s') (head s') (xs @ [(new, n, take (nat n) buf)])
           \<and> (\<forall>b. b \<noteq> new \<and> (xs = [] \<or> b \<noteq> fst (last xs)) \<longrightarrow> pkts s' b = pkts s b)
           \<and> dom (pkts s') = insert new (dom (pkts s))
           \<and> head s' = (if xs = [] then Some new else head s)"
proof -
  define cell where "cell = \<lparr>len = n, data = take (nat n) buf, nxt = None\<rparr>"
  define s1 where "s1 = s\<lparr>pkts := (pkts s)(new \<mapsto> cell)\<rparr>"
  from q new have fresh: "new \<notin> fst ` set xs"
    using queue_holds_allocated by blast
  with q have "queue_holds (pkts s1) (head s1) xs"
    by (simp add: s1_def queue_holds_update_other)
  moreover have "pkts s1 new = Some cell" by (simp add: s1_def)
  ultimately obtain s' where s': "queue_packet s1 new = Some s'"
    "queue_holds (pkts s') (head s') (xs @ [(new, len cell, data cell)])"
    "\<forall>b. b \<noteq> new \<and> (xs = [] \<or> b \<noteq> fst (last xs)) \<longrightarrow> pkts s' b = pkts s1 b"
    "dom (pkts s') = dom (pkts s1)" "head s' = (if xs = [] then Some new else head s1)"
    using queue_packet_appends [OF _ fresh, of s1 cell] by blast
  from n s'(1) have "queue_new_packet s (Some new) buf n = Some (0, s')"
    by (simp add: queue_new_packet_def s1_def cell_def)
  with s'(2-5) show ?thesis
    by (simp add: s1_def cell_def)
qed



section \<open>Properties of the session loop\<close>

lemma last_ret_append:
  "last_ret (tr @ ev) =
     foldl (\<lambda>r e. case e of Ev_dtls_mainloop x \<Rightarrow> x | Ev_cstp_mainloop x \<Rightarrow> x | _ \<Rightarrow> r)
       (last_ret tr) ev"
  by (simp add: last_ret_def)

lemma precedes_filter:
  "P a \<Longrightarrow> P b \<Longrightarrow> precedes a b (filter P xs) \<longleftrightarrow> precedes a b xs"
  by (induction xs) auto

lemma dtls_part_ret:
  assumes "dtls_part d ret v timeout = (ret1, dw, v1, timeout1, ev1)"
    and "ret = last_ret tr"
  shows "ret1 = last_ret (tr @ ev1)"
  using assms
  by (auto simp: dtls_part_def Let_def last_ret_append split: if_splits prod.splits)

lemma dtls_part_events:
  assumes "dtls_part d ret v timeout = (ret1, dw, v1, timeout1, ev1)"
  shows "filter is_handshake_event ev1 = handshake_events d v"
  using assms
  by (auto simp: dtls_part_def Let_def handshake_events_def is_handshake_event_def
      split: if_splits prod.splits)

lemma mainloop_body_events:
  assumes "mainloop_body d ret v = (out, ev)"
  shows "filter is_handshake_event ev = handshake_events d v"
proof -
  obtain ret1 dw v1 timeout1 ev1 where p: "dtls_part d ret v INT_MAX = (ret1, dw, v1, timeout1, ev1)"
    by (cases "dtls_part d ret v INT_MAX") auto
  from dtls_part_events [OF p] assms show ?thesis
    by (auto simp: mainloop_body_def p Let_def is_handshake_event_def
        split: if_splits prod.splits)
qed

lemma seen_append [simp]:
  "cancel_seen (xs @ ys) \<longleftrightarrow> cancel_seen xs \<or> cancel_seen ys"
  "pause_seen (xs @ ys) \<longleftrightarrow> pause_seen xs \<or> pause_seen ys"
  by (simp_all add: cancel_seen_def pause_seen_def)

lemma seen_Nil [simp]: "\<not> cancel_seen []" "\<not> pause_seen []"
  by (simp_all add: cancel_seen_def pause_seen_def)

lemma seen_Cons [simp]:
  "cancel_seen (e # tr) \<longleftrightarrow> cancel_poll e \<or> cancel_seen tr"
  "pause_seen (e # tr) \<longleftrightarrow> pause_poll e \<or> pause_seen tr"
  by (simp_all add: cancel_seen_def pause_seen_def)

lemma dtls_part_quiet:
  assumes "dtls_part d ret v timeout = (ret1, dw, v1, timeout1, ev1)"
  shows "\<not> cancel_seen ev1 \<and> \<not> pause_seen ev1"
  using assms
  by (auto simp: dtls_part_def Let_def split: if_splits prod.splits)

lemma mainloop_body_ret:
  assumes "mainloop_body d ret v = (out, ev)" and "ret = last_ret tr"
  shows "case out of
           Continue ret' v' \<Rightarrow>
             ret' = last_ret (tr @ ev) \<and> \<not> cancel_seen ev \<and> \<not> pause_seen ev
         | Break ret' v' \<Rightarrow>
             quit_reason v' \<noteq> None \<and> \<not> pause_seen ev \<and>
             (if cancel_seen ev
              then ret' = - EINTR \<and> quit_reason v' = Some ''Aborted by caller'' \<and>
                   ev \<noteq> [] \<and> cancel_poll (last ev)
              else ret' = last_ret (tr @ ev))
         | Return r v' \<Rightarrow>
             r = 0 \<and> got_pause_cmd v' = 0 \<and> new_dtls_started v' = 0 \<and> \<not> cancel_seen ev \<and>
             (\<exists>ev0 pz. pz \<noteq> 0 \<and> \<not> pause_seen ev0 \<and>
                ev = ev0 @ [Ev_poll_cmd_fd 0 pz, Ev_openconnect_close_https, Ev_dtls_close,
                            Ev_vpn_progress ''Caller paused the connection''])"
proof -
  obtain ret1 dw v1 timeout1 ev1 where p: "dtls_part d ret v INT_MAX = (ret1, dw, v1, timeout1, ev1)"
    by (cases "dtls_part d ret v INT_MAX") auto
  from dtls_part_ret [OF p assms(2)] have r1: "ret1 = last_ret (tr @ ev1)" .
  from dtls_part_quiet [OF p] have q1: "\<not> cancel_seen ev1" "\<not> pause_seen ev1"
    by simp_all
  obtain ret2 v2 timeout2 where c: "cstp_mainloop d v1 timeout1 = (ret2, v2, timeout2)"
    by (cases "cstp_mainloop d v1 timeout1") auto
  obtain r3 v3 timeout3 where t: "tun_mainloop d v2 timeout2 = (r3, v3, timeout3)"
    by (cases "tun_mainloop d v2 timeout2") auto
  define ev3 where "ev3 = ev1 @ [Ev_cstp_mainloop ret2, Ev_tun_mainloop r3]"
  define v4 where "v4 = poll_cmd_fd d v3 0"
  from q1 have q3: "\<not> cancel_seen ev3" "\<not> pause_seen ev3"
    by (simp_all add: ev3_def)
  show ?thesis
  proof (cases "quit_reason v1 \<noteq> None \<or> quit_reason v2 \<noteq> None \<or> quit_reason v3 \<noteq> None")
    case True
    with assms(1) r1 q1 show ?thesis
      by (auto simp: mainloop_body_def p c t Let_def last_ret_append split: if_splits)
  next
    case False
    then have body: "mainloop_body d ret v =
      (if got_cancel_cmd v4 \<noteq> 0 then
         (Break (- EINTR) (v4\<lparr>quit_reason := Some ''Aborted by caller''\<rparr>),
          ev3 @ [Ev_poll_cmd_fd (got_cancel_cmd v4) (got_pause_cmd v4)])
       else if got_pause_cmd v4 \<noteq> 0 then
         (Return 0 ((dtls_close d (openconnect_close_https d v4 0) 1)
                      \<lparr>new_dtls_started := 0, got_pause_cmd := 0\<rparr>),
          ev3 @ [Ev_poll_cmd_fd (got_cancel_cmd v4) (got_pause_cmd v4),
                 Ev_openconnect_close_https, Ev_dtls_close,
                 Ev_vpn_progress ''Caller paused the connection''])
       else if dw + ret2 + r3 \<noteq> 0 then
         (Continue ret2 v4, ev3 @ [Ev_poll_cmd_fd (got_cancel_cmd v4) (got_pause_cmd v4)])
       else
         (Continue ret2 (select_call d v4 (c_div (sint timeout3) 1000)
                           (c_mod (sint timeout3) 1000 * 1000)),
          ev3 @ [Ev_poll_cmd_fd (got_cancel_cmd v4) (got_pause_cmd v4),
                 Ev_vpn_progress ''No work to do; sleeping for %d ms...'',
                 Ev_select (c_div (sint timeout3) 1000) (c_mod (sint timeout3) 1000 * 1000)]))"
      by (simp add: mainloop_body_def p c t Let_def ev3_def v4_def)
    show ?thesis
    proof (cases "got_cancel_cmd v4 \<noteq> 0")
      case True
      with body assms(1) q3 show ?thesis by auto
    next
      case nc: False
      show ?thesis
      proof (cases "got_pause_cmd v4 \<noteq> 0")
        case True
        with nc body assms(1) have out: "out = Return 0 ((dtls_close d (openconnect_close_https d v4 0) 1)
                      \<lparr>new_dtls_started := 0, got_pause_cmd := 0\<rparr>)"
          and ev: "ev = ev3 @ [Ev_poll_cmd_fd 0 (got_pause_cmd v4),
                 Ev_openconnect_close_https, Ev_dtls_close,
                 Ev_vpn_progress ''Caller paused the connection'']"
          by simp_all
        from ev q3 True have "\<exists>ev0 pz. pz \<noteq> 0 \<and> \<not> pause_seen ev0 \<and>
                ev = ev0 @ [Ev_poll_cmd_fd 0 pz, Ev_openconnect_close_https, Ev_dtls_close,
                            Ev_vpn_progress ''Caller paused the connection'']"
          by blast
        moreover from ev q3 have "\<not> cancel_seen ev" by simp
        ultimately show ?thesis by (simp add: out)
      next
        case np: False
        have lr: "last_ret (tr @ ev3 @ more) = ret2"
          if "\<forall>e \<in> set more. \<not> (\<exists>x. e = Ev_dtls_mainloop x) \<and> \<not> (\<exists>x. e = Ev_cstp_mainloop x)"
          for more
          using that
        proof (induction more rule: rev_induct)
          case Nil
          show ?case by (simp add: ev3_def last_ret_append)
        next
          case (snoc e more)
          then have "last_ret (tr @ ev3 @ more) = ret2" by simp
          moreover have "last_ret ((tr @ ev3 @ more) @ [e]) = last_ret (tr @ ev3 @ more)"
            using snoc.prems by (cases e) (simp_all add: last_ret_append)
          ultimately show ?case by simp
        qed
        show ?thesis
        proof (cases "dw + ret2 + r3 \<noteq> 0")
          case True
          with nc np body assms(1) have out: "out = Continue ret2 v4"
            and ev: "ev = ev3 @ [Ev_poll_cmd_fd 0 0]"
            by simp_all
          from lr [of "[Ev_poll_cmd_fd 0 0]"] q3 show ?thesis
            by (simp add: out ev)
        next
          case False
          with nc np body assms(1) have out: "out = Continue ret2
                (select_call d v4 (c_div (sint timeout3) 1000)
                   (c_mod (sint timeout3) 1000 * 1000))"
            and ev: "ev = ev3 @ [Ev_poll_cmd_fd 0 0,
                 Ev_vpn_progress ''No work to do; sleeping for %d ms...'',
                 Ev_select (c_div (sint timeout3) 1000) (c_mod (sint timeout3) 1000 * 1000)]"
            by simp_all
          from lr [of "[Ev_poll_cmd_fd 0 0,
                 Ev_vpn_progress ''No work to do; sleeping for %d ms...'',
                 Ev_select (c_div (sint timeout3) 1000) (c_mod (sint timeout3) 1000 * 1000)]"]
            q3 show ?thesis
            by (simp add: out ev)
        qed
      qed
    qed
  qed
qed

lemma mainloop_while_end:
  assumes "mainloop_while d ret v tr = Some y"
  shows "ret = last_ret tr \<and> \<not> cancel_seen tr \<and> \<not> pause_seen tr \<longrightarrow> loop_end_ok y"
  using assms
proof (induction rule: mainloop_while.raw_induct [rotated 1, consumes 1, case_names step])
  case (step loop d ret v tr y)
  show ?case
  proof (cases "quit_reason v \<noteq> None")
    case True
    with step(2) show ?thesis by auto
  next
    case False
    obtain out ev where b: "mainloop_body d ret v = (out, ev)"
      by (cases "mainloop_body d ret v")
    show ?thesis
    proof
      assume inv: "ret = last_ret tr \<and> \<not> cancel_seen tr \<and> \<not> pause_seen tr"
      then have rr: "ret = last_ret tr" by simp
      note body = mainloop_body_ret [OF b rr]
      show "loop_end_ok y"
      proof (cases out)
        case (Continue ret' v')
        with step(2) False b have "loop d ret' v' (tr @ ev) = Some y" by simp
        from step(1) [OF this] body Continue inv show ?thesis by simp
      next
        case (Break ret' v')
        with step(2) False b have y: "y = (Loop_exit ret' v', tr @ ev)" by simp
        from body Break inv show ?thesis
          by (auto simp: y split: if_splits)
      next
        case (Return r v')
        with step(2) False b have y: "y = (Loop_return r v', tr @ ev)" by simp
        from body Return obtain ev0 pz where
          r: "r = 0" "got_pause_cmd v' = 0" "new_dtls_started v' = 0" "\<not> cancel_seen ev"
          and ev: "pz \<noteq> 0" "\<not> pause_seen ev0"
            "ev = ev0 @ [Ev_poll_cmd_fd 0 pz, Ev_openconnect_close_https, Ev_dtls_close,
                         Ev_vpn_progress ''Caller paused the connection'']"
          by auto
        from inv ev have "pz \<noteq> 0 \<and> \<not> pause_seen (tr @ ev0) \<and>
            tr @ ev = (tr @ ev0) @ [Ev_poll_cmd_fd 0 pz, Ev_openconnect_close_https,
                        Ev_dtls_close, Ev_vpn_progress ''Caller paused the connection'']"
          by simp
        then have "\<exists>tr0 pz. pz \<noteq> 0 \<and> \<not> pause_seen tr0 \<and>
            tr @ ev = tr0 @ [Ev_poll_cmd_fd 0 pz, Ev_openconnect_close_https,
                        Ev_dtls_close, Ev_vpn_progress ''Caller paused the connection'']"
          by blast
        with r inv show ?thesis by (simp add: y)
      qed
    qed
  qed
qed

lemmas ex_defs = v_ex_def d_ex_def d_ex_stop_def d_ex_tun_def d_ex_cancel_def
  openconnect_mainloop_def mainloop_init_def mainloop_while.simps mainloop_body_def
  dtls_part_def dtls_attempt_warranted_def Let_def EIO_def EINTR_def

lemma ex_pause:
  "openconnect_mainloop d_ex v_ex 0 0 =
     Some (PAUSED, 0,
       v_ex\<lparr>select_rfds := {4}, select_nfds := 5, ssl_fd := - 1, new_dtls_ssl := False\<rparr>,
       [Ev_dtls_try_handshake, Ev_vpn_progress ''Attempt new DTLS connection'',
        Ev_connect_dtls_socket, Ev_cstp_mainloop 1, Ev_tun_mainloop 0, Ev_poll_cmd_fd 0 1,
        Ev_openconnect_close_https, Ev_dtls_close,
        Ev_vpn_progress ''Caller paused the connection''])"
  by (simp add: ex_defs)

lemma ex_stop:
  "openconnect_mainloop d_ex_stop v_ex 0 0 =
     Some (STOPPED, - 32,
       v_ex\<lparr>select_rfds := {4}, select_nfds := 5, new_dtls_started := 100,
            quit_reason := Some ''Remote closed''\<rparr>,
       [Ev_dtls_try_handshake, Ev_vpn_progress ''Attempt new DTLS connection'',
        Ev_connect_dtls_socket, Ev_cstp_mainloop (- 32),
        Ev_cstp_bye (Some ''Remote closed''), Ev_shutdown_tun])"
  by (simp add: ex_defs)

lemma ex_cancel:
  "openconnect_mainloop d_ex_cancel v_ex 0 0 =
     Some (STOPPED, - EINTR,
       v_ex\<lparr>select_rfds := {4}, select_nfds := 5, new_dtls_started := 100,
            got_cancel_cmd := 1, quit_reason := Some ''Aborted by caller''\<rparr>,
       [Ev_dtls_try_handshake, Ev_vpn_progress ''Attempt new DTLS connection'',
        Ev_connect_dtls_socket, Ev_cstp_mainloop 1, Ev_tun_mainloop 0, Ev_poll_cmd_fd 1 0,
        Ev_cstp_bye (Some ''Aborted by caller''), Ev_shutdown_tun])"
  by (simp add: ex_defs)

lemma ex_tun:
  "openconnect_mainloop d_ex_tun v_ex 0 0 =
     Some (STOPPED, - EIO,
       v_ex\<lparr>select_rfds := {4}, select_nfds := 5, new_dtls_started := 100,
            quit_reason := Some ''Tun failed''\<rparr>,
       [Ev_dtls_try_handshake, Ev_vpn_progress ''Attempt new DTLS connection'',
        Ev_connect_dtls_socket, Ev_cstp_mainloop 0, Ev_tun_mainloop (- 12),
        Ev_cstp_bye (Some ''Tun failed''), Ev_shutdown_tun])"
  by (simp add: ex_defs)

lemma handshake_event_mem:
  "is_handshake_event e \<Longrightarrow> e \<in> set ev \<longleftrightarrow> e \<in> set (filter is_handshake_event ev)"
  by simp

lemma ex_body:
  "mainloop_body d_ex 0 v_ex =
     (Return 0 (v_ex\<lparr>ssl_fd := - 1, new_dtls_ssl := False\<rparr>),
      [Ev_dtls_try_handshake, Ev_vpn_progress ''Attempt new DTLS connection'',
       Ev_connect_dtls_socket, Ev_cstp_mainloop 1, Ev_tun_mainloop 0, Ev_poll_cmd_fd 0 1,
       Ev_openconnect_close_https, Ev_dtls_close,
       Ev_vpn_progress ''Caller paused the connection''])"
  by (simp add: ex_defs)

lemma ex_body_fresh:
  "mainloop_body d_ex_run 0 (v_ex\<lparr>new_dtls_ssl := False\<rparr>) =
     (Continue 1 (v_ex\<lparr>new_dtls_ssl := True, new_dtls_started := 100\<rparr>),
      [Ev_vpn_progress ''Attempt new DTLS connection'', Ev_connect_dtls_socket,
       Ev_cstp_mainloop 1, Ev_tun_mainloop 0, Ev_poll_cmd_fd 0 0])"
  by (simp add: ex_defs d_ex_run_def)

section \<open>The claims\<close>

text \<open>
  Claim C1, as amended. For every keepalive state with a non-zero \<open>dpd\<close> interval that is
  at least \<open>- 2 ^ 30\<close> and every time \<open>now > last_rx + 2 * dpd\<close>, the normal check at \<open>now\<close>
  returns \<open>KA_DPD_DEAD\<close>, provided that no rekey is due (the rekey interval is zero or
  \<open>now < last_rekey + rekey\<close>): the rekey test comes first in \<^verbatim>\<open>keepalive_action\<close>. Below
  \<open>- 2 ^ 30\<close> the product \<^verbatim>\<open>2 * ka->dpd\<close> wraps around to a positive number.
\<close>

theorem dpd_dead_fires:
  assumes "dpd ka \<noteq> 0" and "- 1073741824 \<le> dpd ka"
    and "now > last_rx ka + 2 * dpd ka"
    and "rekey ka = 0 \<or> now < last_rekey ka + rekey ka"
  shows "fst (keepalive_action ka now timeout) = KA_DPD_DEAD"
proof -
  from assms(2) have "dpd_overdue ka \<le> last_rx ka + 2 * dpd ka"
    by (simp add: dpd_overdue_def c_int_mul_2_le)
  with assms(1,3,4) show ?thesis
    by (auto simp: keepalive_action_dead rekey_due_def)
qed

theorem dpd_dead_fires_witness:
  "dpd ka_ex_dpd \<noteq> 0 \<and> - 1073741824 \<le> dpd ka_ex_dpd
   \<and> 21 > last_rx ka_ex_dpd + 2 * dpd ka_ex_dpd
   \<and> rekey ka_ex_dpd = 0
   \<and> fst (keepalive_action ka_ex_dpd 21 INT_MAX) = KA_DPD_DEAD"
  using dpd_dead_fires [of ka_ex_dpd 21 INT_MAX] by (simp add: ka_ex_dpd_def)

text \<open>
  Claim C1 as it is written fails: with a rekey due at the same time, a check made more
  than two DPD intervals after the last receive returns \<open>KA_REKEY\<close>; and with an interval
  below \<open>- 2 ^ 30\<close> the wrapped product puts the deadline in the future, so that the check
  returns \<open>KA_DPD\<close>.
\<close>

theorem dpd_dead_preempted_by_rekey:
  "dpd ka_ex_rekey_dead \<noteq> 0 \<and> 100 > last_rx ka_ex_rekey_dead + 2 * dpd ka_ex_rekey_dead
   \<and> fst (keepalive_action ka_ex_rekey_dead 100 INT_MAX) = KA_REKEY
   \<and> fst (keepalive_action ka_ex_rekey_dead 100 INT_MAX) \<noteq> KA_DPD_DEAD
   \<and> dpd ka_ex_wrap_up \<noteq> 0 \<and> 0 > last_rx ka_ex_wrap_up + 2 * dpd ka_ex_wrap_up
   \<and> rekey ka_ex_wrap_up = 0
   \<and> fst (keepalive_action ka_ex_wrap_up 0 INT_MAX) = KA_DPD"
  by (simp add: ka_ex_rekey_dead_def ka_ex_wrap_up_def ka_eval)

text \<open>
  Claim C2, as amended. In every run of normal checks with a \<open>dpd\<close> interval that is
  positive and below \<open>2 ^ 30\<close> (so that \<^verbatim>\<open>2 * ka->dpd\<close> does not overflow), in which
  \<open>last_rx\<close> is refreshed at least once per interval, so that \<open>now - last_rx \<le> dpd\<close> at
  every check, \<open>KA_DPD_DEAD\<close> is never returned.
\<close>

theorem no_false_dpd_dead:
  assumes "0 < dpd ka" and "dpd ka < 1073741824"
    and "\<forall>(rx, now, timeout) \<in> set steps. now - rx \<le> dpd ka"
  shows "KA_DPD_DEAD \<notin> set (ka_checks ka steps)"
  using assms
proof (induction steps arbitrary: ka)
  case Nil
  then show ?case by simp
next
  case (Cons step steps)
  obtain rx now timeout where step: "step = (rx, now, timeout)"
    by (cases step)
  obtain act ka' timeout' where r:
    "keepalive_action (ka\<lparr>last_rx := rx\<rparr>) now timeout = (act, ka', timeout')"
    by (cases "keepalive_action (ka\<lparr>last_rx := rx\<rparr>) now timeout")
  from Cons.prems step have age: "now - rx \<le> dpd ka" by auto
  from Cons.prems(2) have "rx + 2 * dpd ka \<le> dpd_overdue (ka\<lparr>last_rx := rx\<rparr>)"
    by (simp add: dpd_overdue_def c_int_mul_2_ge)
  with age Cons.prems(1) have "act \<noteq> KA_DPD_DEAD"
    using keepalive_action_dead [of "ka\<lparr>last_rx := rx\<rparr>" now timeout] by (simp add: r)
  moreover have "dpd ka' = dpd ka"
    using keepalive_action_dpd_field [of "ka\<lparr>last_rx := rx\<rparr>" now timeout] by (simp add: r)
  with Cons.prems have "KA_DPD_DEAD \<notin> set (ka_checks ka' steps)"
    by (intro Cons.IH) auto
  ultimately show ?case
    by (simp add: step r)
qed

theorem no_false_dpd_dead_witness:
  "0 < dpd ka_ex_dpd \<and> dpd ka_ex_dpd < 1073741824
   \<and> (10::int) - 0 \<le> dpd ka_ex_dpd
   \<and> (14::int) - 12 \<le> dpd ka_ex_dpd
   \<and> (22::int) - 12 \<le> dpd ka_ex_dpd
   \<and> ka_checks ka_ex_dpd [(0, 10, INT_MAX), (12, 14, INT_MAX), (12, 22, INT_MAX)]
       = [KA_DPD, KA_NONE, KA_DPD]
   \<and> KA_DPD_DEAD \<notin> set (ka_checks ka_ex_dpd [(0, 10, INT_MAX), (12, 14, INT_MAX), (12, 22, INT_MAX)])"
  using no_false_dpd_dead [of ka_ex_dpd "[(0, 10, INT_MAX), (12, 14, INT_MAX), (12, 22, INT_MAX)]"]
  by (simp add: ka_ex_dpd_def ka_eval)

text \<open>
  Claim C2 as it is written fails. With the negative interval \<open>- 5\<close>, \<open>last_rx = 10\<close> and
  \<open>now = 4\<close> the interval is non-zero and \<open>now - last_rx \<le> dpd\<close>, and the check returns
  \<open>KA_DPD_DEAD\<close>. With the interval \<open>2 ^ 30\<close> and a receive in the very second of the check
  the product \<^verbatim>\<open>2 * ka->dpd\<close> wraps around to \<open>- 2 ^ 31\<close>, and the check returns
  \<open>KA_DPD_DEAD\<close> as well.
\<close>

theorem dpd_dead_despite_fresh_receive:
  "dpd ka_ex_negative \<noteq> 0 \<and> (4::int) - 10 \<le> dpd ka_ex_negative
   \<and> ka_checks ka_ex_negative [(10, 4, INT_MAX)] = [KA_DPD_DEAD]
   \<and> dpd ka_ex_wrap_down \<noteq> 0 \<and> (0::int) - 0 \<le> dpd ka_ex_wrap_down
   \<and> ka_checks ka_ex_wrap_down [(0, 0, INT_MAX)] = [KA_DPD_DEAD]"
  by (simp add: ka_ex_negative_def ka_ex_wrap_down_def ka_eval)

text \<open>
  Claim C3. Two consecutive normal checks with no receive in between must not both return
  \<open>KA_DPD\<close> less than half the DPD interval apart; the comment in the source says the
  same (``Repeat by all means, but only after half the DPD period''). The code does not
  keep to it when the interval is odd, since \<^verbatim>\<open>ka->dpd / 2\<close> is rounded down: with an
  interval of 1 second two checks in the same second both probe, and with an interval of
  3 seconds a probe is repeated after 1 second. The statement evaluates the code on these
  two runs; \<open>2 * (t2 - t1) < dpd\<close> says that the checks are less than half the interval
  apart.
\<close>

theorem probe_repeated_before_half_interval:
  "keepalive_action ka_ex_dpd1 1 INT_MAX = (KA_DPD, ka_ex_dpd1\<lparr>last_dpd := 1\<rparr>, INT_MAX)
   \<and> last_rx (ka_ex_dpd1\<lparr>last_dpd := 1\<rparr>) = last_rx ka_ex_dpd1
   \<and> keepalive_action (ka_ex_dpd1\<lparr>last_dpd := 1\<rparr>) 1 INT_MAX
       = (KA_DPD, ka_ex_dpd1\<lparr>last_dpd := 1\<rparr>, INT_MAX)
   \<and> 2 * ((1::int) - 1) < dpd ka_ex_dpd1
   \<and> keepalive_action ka_ex_dpd3 3 INT_MAX = (KA_DPD, ka_ex_dpd3\<lparr>last_dpd := 3\<rparr>, INT_MAX)
   \<and> last_rx (ka_ex_dpd3\<lparr>last_dpd := 3\<rparr>) = last_rx ka_ex_dpd3
   \<and> keepalive_action (ka_ex_dpd3\<lparr>last_dpd := 3\<rparr>) 4 INT_MAX
       = (KA_DPD, ka_ex_dpd3\<lparr>last_dpd := 4\<rparr>, INT_MAX)
   \<and> 2 * ((4::int) - 3) < dpd ka_ex_dpd3"
  by (simp add: ka_ex_dpd1_def ka_ex_dpd3_def ka_eval)

text \<open>
  Claim C4. When a rekey is due (\<open>rekey\<close> is non-zero and \<open>now \<ge> last_rekey + rekey\<close>) and
  the DPD probe deadline has been reached as well, the normal check returns \<open>KA_REKEY\<close>,
  not \<open>KA_DPD\<close>; it leaves the state, \<open>last_dpd\<close> included, and the time-out as they were.
\<close>

theorem rekey_before_probe:
  assumes "rekey ka \<noteq> 0" and "now \<ge> last_rekey ka + rekey ka"
    and "dpd ka \<noteq> 0" and "now \<ge> dpd_due ka"
  shows "keepalive_action ka now timeout = (KA_REKEY, ka, timeout)
    \<and> fst (keepalive_action ka now timeout) \<noteq> KA_DPD"
  using assms by (simp add: keepalive_action_def)

theorem rekey_before_probe_witness:
  "rekey ka_ex_rekey_dead \<noteq> 0 \<and> 15 \<ge> last_rekey ka_ex_rekey_dead + rekey ka_ex_rekey_dead
   \<and> dpd ka_ex_rekey_dead \<noteq> 0 \<and> 15 \<ge> dpd_due ka_ex_rekey_dead
   \<and> keepalive_action ka_ex_rekey_dead 15 INT_MAX = (KA_REKEY, ka_ex_rekey_dead, INT_MAX)
   \<and> fst (keepalive_action (ka_ex_rekey_dead\<lparr>rekey := 0\<rparr>) 15 INT_MAX) = KA_DPD"
  using rekey_before_probe [of ka_ex_rekey_dead 15 INT_MAX]
  by (simp add: ka_ex_rekey_dead_def ka_eval)

text \<open>
  Claim C5, as amended. For both entry points, every keepalive state, every time and
  every time-out of the caller, the time-out after the call never exceeds the one before
  it, and it is \<open>\<ge> 0\<close> whenever the caller's time-out is \<open>\<ge> 0\<close> (as it is in the session
  loop, which starts every iteration from \<^verbatim>\<open>INT_MAX\<close>).
\<close>

theorem timeout_only_tightened:
  "sint (snd (snd (keepalive_action ka now timeout))) \<le> sint timeout
   \<and> sint (snd (ka_stalled_action ka now timeout)) \<le> sint timeout
   \<and> (0 \<le> sint timeout \<longrightarrow>
        0 \<le> sint (snd (snd (keepalive_action ka now timeout)))
        \<and> 0 \<le> sint (snd (ka_stalled_action ka now timeout)))"
proof -
  obtain a ka' t' where r: "keepalive_action ka now timeout = (a, ka', t')"
    by (cases "keepalive_action ka now timeout")
  obtain b u' where s: "ka_stalled_action ka now timeout = (b, u')"
    by (cases "ka_stalled_action ka now timeout")
  from keepalive_action_timeout [OF r] ka_stalled_action_timeout [OF s]
  show ?thesis by (simp add: r s)
qed

theorem timeout_only_tightened_witness:
  "0 \<le> sint INT_MAX
   \<and> sint (snd (snd (keepalive_action ka_ex_busy 100 INT_MAX))) = 15000
   \<and> sint (snd (ka_stalled_action ka_ex_busy 100 INT_MAX)) = 55000
   \<and> sint (snd (snd (keepalive_action ka_ex_busy 100 INT_MAX))) \<le> sint INT_MAX
   \<and> 0 \<le> sint (snd (snd (keepalive_action ka_ex_busy 100 INT_MAX)))
   \<and> 0 \<le> sint (snd (ka_stalled_action ka_ex_busy 100 INT_MAX))"
  using timeout_only_tightened [of ka_ex_busy 100 INT_MAX]
  by (simp add: ka_ex_busy_def INT_MAX_def ka_eval)

text \<open>
  Claim C5 as it is written fails for a negative time-out of the caller: neither entry
  point raises it, so the time-out after the call is negative as well.
\<close>

theorem negative_timeout_stays_negative:
  "sint (snd (snd (keepalive_action ka_ex_idle 0 (- 1)))) = - 1
   \<and> sint (snd (ka_stalled_action ka_ex_idle 0 (- 1))) = - 1
   \<and> \<not> 0 \<le> sint (snd (snd (keepalive_action ka_ex_idle 0 (- 1))))
   \<and> \<not> 0 \<le> sint (snd (ka_stalled_action ka_ex_idle 0 (- 1)))"
  by (simp add: ka_ex_idle_def ka_eval)

text \<open>
  Claim C6, as amended. \<open>openconnect_mainloop\<close> returns \<open>0\<close> if and only if it returns by
  the pause path, and it does so exactly when a call of \<^verbatim>\<open>poll_cmd_fd\<close> found a pause
  command and no cancel command: that call is then followed by the closing of the two
  transports and the return, with the pause flag and the DTLS timer reset. On every path
  on which the loop is left (\<open>STOPPED\<close>) a quit reason is set and handed to \<^verbatim>\<open>cstp_bye\<close>,
  and the value returned is negative: it is \<open>- EINTR\<close> when a call of \<^verbatim>\<open>poll_cmd_fd\<close> found
  a cancel command (the last call made in the loop, with the reason ``Aborted by
  caller''); otherwise it is the value that the latest call of \<^verbatim>\<open>dtls_mainloop\<close> or
  \<^verbatim>\<open>cstp_mainloop\<close> returned, if that is negative, and \<open>- EIO\<close> if it is not. What
  \<^verbatim>\<open>tun_mainloop\<close> returns plays no part in it.
\<close>

theorem mainloop_return_code:
  assumes "openconnect_mainloop d vpninfo rt ri = Some (p, r, v', tr)"
  shows "(r = 0 \<longleftrightarrow> p = PAUSED)
    \<and> (p = PAUSED \<longleftrightarrow> pause_seen tr)
    \<and> (p = PAUSED \<longrightarrow>
          \<not> cancel_seen tr \<and> got_pause_cmd v' = 0 \<and> new_dtls_started v' = 0
          \<and> (\<exists>tr0 pz. pz \<noteq> 0 \<and> \<not> pause_seen tr0 \<and>
                tr = tr0 @ [Ev_poll_cmd_fd 0 pz, Ev_openconnect_close_https, Ev_dtls_close,
                            Ev_vpn_progress ''Caller paused the connection'']))
    \<and> (p = STOPPED \<longrightarrow>
          r < 0
          \<and> r = (if cancel_seen tr then - EINTR
                  else if last_ret tr < 0 then last_ret tr else - EIO)
          \<and> (\<exists>reason tr0.
                tr = tr0 @ [Ev_cstp_bye (Some reason), Ev_shutdown_tun]
                \<and> (cancel_seen tr \<longrightarrow>
                      reason = ''Aborted by caller'' \<and> tr0 \<noteq> [] \<and> cancel_poll (last tr0))))"
proof -
  define v2 where "v2 = mainloop_init vpninfo rt ri"
  from assms obtain e tr1 where w: "mainloop_while d 0 v2 [] = Some (e, tr1)"
    by (auto simp: openconnect_mainloop_def v2_def split: option.splits)
  have "0 = last_ret []" by (simp add: last_ret_def)
  with mainloop_while_end [OF w] have e: "loop_end_ok (e, tr1)"
    by simp
  show ?thesis
  proof (cases e)
    case (Loop_exit ret' v1)
    with assms w have res: "p = STOPPED" "r = (if ret' < 0 then ret' else - EIO)"
      "tr = tr1 @ [Ev_cstp_bye (quit_reason v1), Ev_shutdown_tun]"
      by (simp_all add: openconnect_mainloop_def v2_def [symmetric])
    from e Loop_exit have q: "quit_reason v1 \<noteq> None" and np: "\<not> pause_seen tr1"
      and rr: "if cancel_seen tr1
               then ret' = - EINTR \<and> quit_reason v1 = Some ''Aborted by caller'' \<and>
                    tr1 \<noteq> [] \<and> cancel_poll (last tr1)
               else ret' = last_ret tr1"
      by simp_all
    from q obtain reason where reason: "quit_reason v1 = Some reason" by auto
    from res(3) have lr: "last_ret tr = last_ret tr1"
      and cs: "cancel_seen tr = cancel_seen tr1" and ps: "pause_seen tr = pause_seen tr1"
      by (simp_all add: last_ret_append)
    from res(2) have neg: "r < 0" by (simp add: EIO_def)
    from res(2) rr lr cs
    have val: "r = (if cancel_seen tr then - EINTR
                    else if last_ret tr < 0 then last_ret tr else - EIO)"
      by (auto simp: EINTR_def split: if_splits)
    from rr cs reason
    have "cancel_seen tr \<longrightarrow>
            reason = ''Aborted by caller'' \<and> tr1 \<noteq> [] \<and> cancel_poll (last tr1)"
      by (auto split: if_splits)
    with res(3) reason
    have "\<exists>reason tr0.
            tr = tr0 @ [Ev_cstp_bye (Some reason), Ev_shutdown_tun]
            \<and> (cancel_seen tr \<longrightarrow>
                  reason = ''Aborted by caller'' \<and> tr0 \<noteq> [] \<and> cancel_poll (last tr0))"
      by blast
    with neg val res(1) np ps show ?thesis by simp
  next
    case (Loop_return r' v1)
    with assms w have res: "p = PAUSED" "r = r'" "v' = v1" "tr = tr1"
      by (simp_all add: openconnect_mainloop_def v2_def [symmetric])
    from e Loop_return res obtain tr0 pz where
      r: "r = 0" "got_pause_cmd v' = 0" "new_dtls_started v' = 0" "\<not> cancel_seen tr"
      and shape: "pz \<noteq> 0" "\<not> pause_seen tr0"
        "tr = tr0 @ [Ev_poll_cmd_fd 0 pz, Ev_openconnect_close_https, Ev_dtls_close,
                     Ev_vpn_progress ''Caller paused the connection'']"
      by auto
    from shape(1,3) have "pause_seen tr" by simp
    moreover from shape
    have "\<exists>tr0 pz. pz \<noteq> 0 \<and> \<not> pause_seen tr0 \<and>
            tr = tr0 @ [Ev_poll_cmd_fd 0 pz, Ev_openconnect_close_https, Ev_dtls_close,
                        Ev_vpn_progress ''Caller paused the connection'']"
      by blast
    ultimately show ?thesis using r res(1) by simp
  qed
qed

theorem mainloop_return_code_witness:
  "openconnect_mainloop d_ex v_ex 0 0 =
     Some (PAUSED, 0,
       v_ex\<lparr>select_rfds := {4}, select_nfds := 5, ssl_fd := - 1, new_dtls_ssl := False\<rparr>,
       [Ev_dtls_try_handshake, Ev_vpn_progress ''Attempt new DTLS connection'',
        Ev_connect_dtls_socket, Ev_cstp_mainloop 1, Ev_tun_mainloop 0, Ev_poll_cmd_fd 0 1,
        Ev_openconnect_close_https, Ev_dtls_close,
        Ev_vpn_progress ''Caller paused the connection''])
   \<and> openconnect_mainloop d_ex_stop v_ex 0 0 =
     Some (STOPPED, - 32,
       v_ex\<lparr>select_rfds := {4}, select_nfds := 5, new_dtls_started := 100,
            quit_reason := Some ''Remote closed''\<rparr>,
       [Ev_dtls_try_handshake, Ev_vpn_progress ''Attempt new DTLS connection'',
        Ev_connect_dtls_socket, Ev_cstp_mainloop (- 32),
        Ev_cstp_bye (Some ''Remote closed''), Ev_shutdown_tun])
   \<and> (- 32 :: int) < 0
   \<and> last_ret [Ev_dtls_try_handshake, Ev_vpn_progress ''Attempt new DTLS connection'',
        Ev_connect_dtls_socket, Ev_cstp_mainloop (- 32),
        Ev_cstp_bye (Some ''Remote closed''), Ev_shutdown_tun] = - 32
   \<and> openconnect_mainloop d_ex_cancel v_ex 0 0 =
     Some (STOPPED, - EINTR,
       v_ex\<lparr>select_rfds := {4}, select_nfds := 5, new_dtls_started := 100,
            got_cancel_cmd := 1, quit_reason := Some ''Aborted by caller''\<rparr>,
       [Ev_dtls_try_handshake, Ev_vpn_progress ''Attempt new DTLS connection'',
        Ev_connect_dtls_socket, Ev_cstp_mainloop 1, Ev_tun_mainloop 0, Ev_poll_cmd_fd 1 0,
        Ev_cstp_bye (Some ''Aborted by caller''), Ev_shutdown_tun])
   \<and> cancel_seen
       [Ev_dtls_try_handshake, Ev_vpn_progress ''Attempt new DTLS connection'',
        Ev_connect_dtls_socket, Ev_cstp_mainloop 1, Ev_tun_mainloop 0, Ev_poll_cmd_fd 1 0,
        Ev_cstp_bye (Some ''Aborted by caller''), Ev_shutdown_tun]"
  using mainloop_return_code [OF ex_pause] mainloop_return_code [OF ex_stop]
    mainloop_return_code [OF ex_cancel] ex_pause ex_stop ex_cancel
  by (simp add: last_ret_def)

text \<open>
  Claim C6 as it is written fails: after a cancel command the loop returns \<open>- EINTR\<close>,
  which no driver reported and which is not \<open>- EIO\<close>; and when \<^verbatim>\<open>tun_mainloop\<close> reports a
  negative code and sets the quit reason, the loop returns \<open>- EIO\<close>, not that code.
\<close>

theorem stop_code_neither_driver_nor_generic:
  "openconnect_mainloop d_ex_cancel v_ex 0 0 =
     Some (STOPPED, - EINTR,
       v_ex\<lparr>select_rfds := {4}, select_nfds := 5, new_dtls_started := 100,
            got_cancel_cmd := 1, quit_reason := Some ''Aborted by caller''\<rparr>,
       [Ev_dtls_try_handshake, Ev_vpn_progress ''Attempt new DTLS connection'',
        Ev_connect_dtls_socket, Ev_cstp_mainloop 1, Ev_tun_mainloop 0, Ev_poll_cmd_fd 1 0,
        Ev_cstp_bye (Some ''Aborted by caller''), Ev_shutdown_tun])
   \<and> - EINTR \<noteq> - EIO
   \<and> openconnect_mainloop d_ex_tun v_ex 0 0 =
     Some (STOPPED, - EIO,
       v_ex\<lparr>select_rfds := {4}, select_nfds := 5, new_dtls_started := 100,
            quit_reason := Some ''Tun failed''\<rparr>,
       [Ev_dtls_try_handshake, Ev_vpn_progress ''Attempt new DTLS connection'',
        Ev_connect_dtls_socket, Ev_cstp_mainloop 0, Ev_tun_mainloop (- 12),
        Ev_cstp_bye (Some ''Tun failed''), Ev_shutdown_tun])
   \<and> - EIO \<noteq> (- 12 :: int)"
  using ex_cancel ex_tun by (simp add: EIO_def EINTR_def)



text \<open>
  Claim C8. When the allocation fails, \<open>queue_new_packet\<close> returns \<open>- ENOMEM\<close>, a negative
  number, and leaves the memory as it was. When it succeeds, on a well-formed queue, with
  a new block and a buffer of at least \<open>len \<ge> 0\<close> bytes, it returns \<open>0\<close>; the queue then
  holds the packets it held, followed by one new packet of length \<open>len\<close> with the first
  \<open>len\<close> bytes of the buffer; no packet but the new one and the former last one (whose
  link now points to the new one) is written, and the head changes only if the queue was
  empty.
\<close>

theorem queue_new_packet_outcomes:
  "queue_new_packet s None buf n = Some (- ENOMEM, s) \<and> - ENOMEM < 0
   \<and> (queue_holds (pkts s) (head s) xs \<and> new \<notin> dom (pkts s) \<and> 0 \<le> n \<and> n \<le> int (length buf) \<longrightarrow>
        (\<exists>s'. queue_new_packet s (Some new) buf n = Some (0, s')
           \<and> queue_holds (pkts s') (head s') (xs @ [(new, n, take (nat n) buf)])
           \<and> int (length (take (nat n) buf)) = n
           \<and> (\<forall>b. b \<noteq> new \<and> (xs = [] \<or> b \<noteq> fst (last xs)) \<longrightarrow> pkts s' b = pkts s b)
           \<and> head s' = (if xs = [] then Some new else head s)))"
proof -
  have "queue_new_packet s None buf n = Some (- ENOMEM, s)"
    by (simp add: queue_new_packet_def)
  moreover have "- ENOMEM < 0" by (simp add: ENOMEM_def)
  moreover have "\<exists>s'. queue_new_packet s (Some new) buf n = Some (0, s')
           \<and> queue_holds (pkts s') (head s') (xs @ [(new, n, take (nat n) buf)])
           \<and> int (length (take (nat n) buf)) = n
           \<and> (\<forall>b. b \<noteq> new \<and> (xs = [] \<or> b \<noteq> fst (last xs)) \<longrightarrow> pkts s' b = pkts s b)
           \<and> head s' = (if xs = [] then Some new else head s)"
    if h: "queue_holds (pkts s) (head s) xs" "new \<notin> dom (pkts s)" "0 \<le> n" "n \<le> int (length buf)"
  proof -
    from queue_new_packet_appends [OF h] obtain s' where
      "queue_new_packet s (Some new) buf n = Some (0, s')"
      "queue_holds (pkts s') (head s') (xs @ [(new, n, take (nat n) buf)])"
      "\<forall>b. b \<noteq> new \<and> (xs = [] \<or> b \<noteq> fst (last xs)) \<longrightarrow> pkts s' b = pkts s b"
      "head s' = (if xs = [] then Some new else head s)"
      by blast
    moreover from h(3,4) have "int (length (take (nat n) buf)) = n" by simp
    ultimately show ?thesis by blast
  qed
  ultimately show ?thesis by blast
qed

theorem queue_new_packet_outcomes_witness:
  "queue_new_packet q_ex None [1, 2, 3] 2 = Some (- ENOMEM, q_ex)
   \<and> queue_holds (pkts q_ex) (head q_ex) [(3, 1, [42])] \<and> 4 \<notin> dom (pkts q_ex)
   \<and> (0::int) \<le> 2 \<and> (2::int) \<le> int (length [1, 2, 3 :: byte])
   \<and> (\<exists>s'. queue_new_packet q_ex (Some 4) [1, 2, 3] 2 = Some (0, s')
          \<and> queue_holds (pkts s') (head s') [(3, 1, [42]), (4, 2, [1, 2])])"
proof -
  have h: "queue_holds (pkts q_ex) (head q_ex) [(3, 1, [42])] \<and> 4 \<notin> dom (pkts q_ex)
      \<and> (0::int) \<le> 2 \<and> (2::int) \<le> int (length [1, 2, 3 :: byte])"
    by (simp add: q_ex_def)
  from queue_new_packet_outcomes [of q_ex "[1, 2, 3]" 2 "[(3, 1, [42])]" 4] h
  show ?thesis by auto
qed

text \<open>
  Claim C9, as amended. In every iteration of the session loop the two steps are made in
  this order: first a handshake that is in flight at the start of the iteration
  (\<open>new_dtls_ssl\<close> set) is advanced by one step; then, on the state that this leaves, it is
  checked whether a fresh attempt is warranted, and the attempt is made if it is. The
  attempt never precedes the handshake step: a handshake begun in an iteration is not
  advanced in that iteration.
\<close>

theorem handshake_advanced_before_attempt:
  assumes "mainloop_body d ret v = (out, ev)"
  shows "(Ev_dtls_try_handshake \<in> set ev \<longleftrightarrow> HAVE_DTLS d \<and> new_dtls_ssl v)
    \<and> (Ev_connect_dtls_socket \<in> set ev \<longleftrightarrow>
          HAVE_DTLS d \<and>
          dtls_attempt_warranted d (if new_dtls_ssl v then dtls_try_handshake d v else v))
    \<and> \<not> precedes Ev_connect_dtls_socket Ev_dtls_try_handshake ev
    \<and> (Ev_dtls_try_handshake \<in> set ev \<and> Ev_connect_dtls_socket \<in> set ev \<longrightarrow>
          precedes Ev_dtls_try_handshake Ev_connect_dtls_socket ev)"
proof -
  note f = mainloop_body_events [OF assms]
  have t: "is_handshake_event Ev_dtls_try_handshake"
    and c: "is_handshake_event Ev_connect_dtls_socket"
    by (simp_all add: is_handshake_event_def)
  have "Ev_dtls_try_handshake \<in> set ev \<longleftrightarrow> Ev_dtls_try_handshake \<in> set (handshake_events d v)"
    using handshake_event_mem [OF t, of ev] by (simp only: f)
  moreover
  have "Ev_connect_dtls_socket \<in> set ev \<longleftrightarrow> Ev_connect_dtls_socket \<in> set (handshake_events d v)"
    using handshake_event_mem [OF c, of ev] by (simp only: f)
  moreover
  have "precedes Ev_connect_dtls_socket Ev_dtls_try_handshake ev \<longleftrightarrow>
        precedes Ev_connect_dtls_socket Ev_dtls_try_handshake (handshake_events d v)"
    using precedes_filter [of is_handshake_event, OF c t, of ev] by (simp only: f)
  moreover
  have "precedes Ev_dtls_try_handshake Ev_connect_dtls_socket ev \<longleftrightarrow>
        precedes Ev_dtls_try_handshake Ev_connect_dtls_socket (handshake_events d v)"
    using precedes_filter [of is_handshake_event, OF t c, of ev] by (simp only: f)
  ultimately show ?thesis
    by (simp add: handshake_events_def)
qed

theorem handshake_advanced_before_attempt_witness:
  "mainloop_body d_ex 0 v_ex =
     (Return 0 (v_ex\<lparr>ssl_fd := - 1, new_dtls_ssl := False\<rparr>),
      [Ev_dtls_try_handshake, Ev_vpn_progress ''Attempt new DTLS connection'',
       Ev_connect_dtls_socket, Ev_cstp_mainloop 1, Ev_tun_mainloop 0, Ev_poll_cmd_fd 0 1,
       Ev_openconnect_close_https, Ev_dtls_close,
       Ev_vpn_progress ''Caller paused the connection''])
   \<and> HAVE_DTLS d_ex \<and> new_dtls_ssl v_ex
   \<and> precedes Ev_dtls_try_handshake Ev_connect_dtls_socket
       [Ev_dtls_try_handshake, Ev_vpn_progress ''Attempt new DTLS connection'',
        Ev_connect_dtls_socket, Ev_cstp_mainloop 1, Ev_tun_mainloop 0, Ev_poll_cmd_fd 0 1,
        Ev_openconnect_close_https, Ev_dtls_close,
        Ev_vpn_progress ''Caller paused the connection'']"
  using handshake_advanced_before_attempt [OF ex_body] ex_body
  by (simp add: d_ex_def v_ex_def)

text \<open>
  Claim C9 as it is written fails: an iteration that begins a fresh attempt leaves the
  new handshake in flight without advancing it, which it would do if the attempt were the
  first step and the handshake step the second; and an iteration that starts with a
  handshake in flight advances it before it checks for a fresh attempt.
\<close>

theorem attempt_not_before_handshake_step:
  "mainloop_body d_ex_run 0 (v_ex\<lparr>new_dtls_ssl := False\<rparr>) =
     (Continue 1 (v_ex\<lparr>new_dtls_ssl := True, new_dtls_started := 100\<rparr>),
      [Ev_vpn_progress ''Attempt new DTLS connection'', Ev_connect_dtls_socket,
       Ev_cstp_mainloop 1, Ev_tun_mainloop 0, Ev_poll_cmd_fd 0 0])
   \<and> new_dtls_ssl (v_ex\<lparr>new_dtls_ssl := True, new_dtls_started := 100\<rparr>)
   \<and> Ev_dtls_try_handshake \<notin> set (snd (mainloop_body d_ex_run 0 (v_ex\<lparr>new_dtls_ssl := False\<rparr>)))
   \<and> precedes Ev_dtls_try_handshake Ev_connect_dtls_socket (snd (mainloop_body d_ex 0 v_ex))
   \<and> \<not> precedes Ev_connect_dtls_socket Ev_dtls_try_handshake (snd (mainloop_body d_ex 0 v_ex))"
  by (simp add: ex_body ex_body_fresh)

text \<open>
  Claim C10. In a normal check that reaches the probe test (DPD enabled, no rekey due,
  peer not declared dead, that is \<open>now\<close> not after the value of \<^verbatim>\<open>overdue\<close>), the deadline
  of the probe is \<open>last_dpd + dpd / 2\<close> only when \<open>last_dpd\<close> is strictly greater than
  \<open>last_rx\<close>, and \<open>last_rx + dpd\<close> otherwise. In particular, when \<open>last_dpd = last_rx\<close> the
  probe is sent exactly from \<open>last_rx + dpd\<close> on: a tie counts as a fresh receive.
\<close>

theorem dpd_tie_counts_as_receive:
  assumes "dpd ka \<noteq> 0" and "rekey ka = 0 \<or> now < last_rekey ka + rekey ka"
    and "now \<le> dpd_overdue ka"
  shows "(fst (keepalive_action ka now timeout) = KA_DPD \<longleftrightarrow>
            (if last_dpd ka > last_rx ka then last_dpd ka + c_div (dpd ka) 2 \<le> now
             else last_rx ka + dpd ka \<le> now))
    \<and> (last_dpd ka = last_rx ka \<longrightarrow>
          (fst (keepalive_action ka now timeout) = KA_DPD \<longleftrightarrow> last_rx ka + dpd ka \<le> now))"
  using assms
  by (auto simp: keepalive_action_probe rekey_due_def dpd_probe_due_def dpd_due_def)

theorem dpd_tie_counts_as_receive_witness:
  "dpd (ka_ex_dpd\<lparr>last_rx := 10, last_dpd := 10\<rparr>) \<noteq> 0
   \<and> rekey (ka_ex_dpd\<lparr>last_rx := 10, last_dpd := 10\<rparr>) = 0
   \<and> dpd_overdue (ka_ex_dpd\<lparr>last_rx := 10, last_dpd := 10\<rparr>) = 30
   \<and> (20::int) \<le> 30
   \<and> last_dpd (ka_ex_dpd\<lparr>last_rx := 10, last_dpd := 10\<rparr>)
       = last_rx (ka_ex_dpd\<lparr>last_rx := 10, last_dpd := 10\<rparr>)
   \<and> fst (keepalive_action (ka_ex_dpd\<lparr>last_rx := 10, last_dpd := 10\<rparr>) 15 INT_MAX) \<noteq> KA_DPD
   \<and> fst (keepalive_action (ka_ex_dpd\<lparr>last_rx := 10, last_dpd := 10\<rparr>) 20 INT_MAX) = KA_DPD"
  using dpd_tie_counts_as_receive [of "ka_ex_dpd\<lparr>last_rx := 10, last_dpd := 10\<rparr>" 15 INT_MAX]
    dpd_tie_counts_as_receive [of "ka_ex_dpd\<lparr>last_rx := 10, last_dpd := 10\<rparr>" 20 INT_MAX]
  by (simp add: ka_ex_dpd_def dpd_overdue_def c_int_mul_mod)

end
